theory Spec2Isabelle
  imports Main "HOL-Library.List_Lexorder"
begin

section \<open>Python strings\<close>

text \<open>
  A Python \<open>str\<close> is a sequence of Unicode code points. It is modelled as a list of
  natural numbers, one per code point, so that \<open>len\<close>, slicing, comparison and the
  character classes of \<open>str.strip\<close> and \<open>str.splitlines\<close> count what Python counts.
  The order on \<open>str\<close> is the lexicographic order of the code points, which is the order
  Python's \<open>sorted\<close> uses on strings.
\<close>

type_synonym str = "nat list"

abbreviation lit :: "string \<Rightarrow> str" where
  "lit s \<equiv> map of_char s"

text \<open>\<open>str.isspace\<close> for one code point: the characters \<open>str.strip()\<close> removes.\<close>

definition is_space :: "nat \<Rightarrow> bool" where
  "is_space c = ((9 \<le> c \<and> c \<le> 13) \<or> (28 \<le> c \<and> c \<le> 32) \<or> c = 133 \<or> c = 160
      \<or> c = 5760 \<or> (8192 \<le> c \<and> c \<le> 8202) \<or> c = 8232 \<or> c = 8233
      \<or> c = 8239 \<or> c = 8287 \<or> c = 12288)"

text \<open>The line boundaries of \<open>str.splitlines\<close> (\<open>\r\n\<close> counts as one boundary).\<close>

definition is_linebreak :: "nat \<Rightarrow> bool" where
  "is_linebreak c = (c = 10 \<or> c = 11 \<or> c = 12 \<or> c = 13 \<or> c = 28 \<or> c = 29 \<or> c = 30
      \<or> c = 133 \<or> c = 8232 \<or> c = 8233)"

text \<open>\<open>s.strip()\<close>, \<open>s.strip(chars)\<close> and \<open>s.rstrip(chars)\<close>.\<close>

definition strip :: "str \<Rightarrow> str" where
  "strip s = rev (dropWhile is_space (rev (dropWhile is_space s)))"

definition rstrip_chars :: "str \<Rightarrow> str \<Rightarrow> str" where
  "rstrip_chars chars s = rev (dropWhile (\<lambda>c. c \<in> set chars) (rev s))"

definition strip_chars :: "str \<Rightarrow> str \<Rightarrow> str" where
  "strip_chars chars s = rstrip_chars chars (dropWhile (\<lambda>c. c \<in> set chars) s)"

text \<open>
  \<open>s.splitlines()\<close>: the lines of \<open>s\<close> without their line ends. The accumulator is the
  line being read; a trailing line boundary does not open a further, empty line.
\<close>

fun splitlines_aux :: "str \<Rightarrow> str \<Rightarrow> str list" where
  "splitlines_aux cur [] = (if cur = [] then [] else [cur])"
| "splitlines_aux cur [c] =
     (if is_linebreak c then [cur] else [cur @ [c]])"
| "splitlines_aux cur (c # d # cs) =
     (if c = 13 \<and> d = 10 then cur # splitlines_aux [] cs
      else if is_linebreak c then cur # splitlines_aux [] (d # cs)
      else splitlines_aux (cur @ [c]) (d # cs))"

definition splitlines :: "str \<Rightarrow> str list" where
  "splitlines s = splitlines_aux [] s"

text \<open>\<open>sep.join(xs)\<close>.\<close>

fun join :: "str \<Rightarrow> str list \<Rightarrow> str" where
  "join sep [] = []"
| "join sep [x] = x"
| "join sep (x # y # ys) = x @ sep @ join sep (y # ys)"

text \<open>\<open>p in s\<close> for strings: \<open>p\<close> occurs in \<open>s\<close> as a contiguous substring.\<close>

definition startswith :: "str \<Rightarrow> str \<Rightarrow> bool" where
  "startswith s p = (take (length p) s = p)"

fun contains :: "str \<Rightarrow> str \<Rightarrow> bool" where
  "contains [] p = (p = [])"
| "contains (c # cs) p = (startswith (c # cs) p \<or> contains cs p)"

text \<open>
  \<open>s.split(sep)\<close> for a separator that is not empty: the occurrences of \<open>sep\<close> are
  found from the left and do not overlap. Python raises ValueError on an empty separator;
  the only call of the program passes a constant that is not empty, and for an empty
  separator this function returns the text unsplit.
\<close>

function str_split_aux :: "str \<Rightarrow> str \<Rightarrow> str \<Rightarrow> str list" where
  "str_split_aux sep cur [] = [cur]"
| "str_split_aux sep cur (c # cs) =
     (if sep \<noteq> [] \<and> startswith (c # cs) sep
      then cur # str_split_aux sep [] (drop (length sep) (c # cs))
      else str_split_aux sep (cur @ [c]) cs)"
  by pat_completeness auto
termination
  by (relation "measure (\<lambda>(sep, cur, s). length s)") auto

definition str_split :: "str \<Rightarrow> str \<Rightarrow> str list" where
  "str_split sep s = str_split_aux sep [] s"

text \<open>\<open>str(n)\<close> for a natural number: its decimal digits.\<close>

fun str_nat :: "nat \<Rightarrow> str" where
  "str_nat n = (if n < 10 then [48 + n] else str_nat (n div 10) @ [48 + n mod 10])"

text \<open>
  \<open>s.lower()\<close>, on the letters A to Z. The only use compares the result with
  \<open>1\<close>, \<open>true\<close>, \<open>yes\<close> and \<open>on\<close>, and no code point outside A to Z is lowered by
  Python to one of the letters of these words.
\<close>

definition lower :: "str \<Rightarrow> str" where
  "lower s = map (\<lambda>c. if 65 \<le> c \<and> c \<le> 90 then c + 32 else c) s"

text \<open>Python slicing \<open>xs[:m]\<close>, where a negative \<open>m\<close> counts from the end.\<close>

definition slice_to :: "int \<Rightarrow> 'a list \<Rightarrow> 'a list" where
  "slice_to m xs = (if 0 \<le> m then take (nat m) xs else take (length xs - nat (- m)) xs)"

declare str_nat.simps [simp del]

section \<open>Exceptions, libraries and the outside world\<close>

text \<open>
  Every exception of the program is caught, if at all, by \<open>except Exception\<close>, so one
  datatype of exceptions with the text of \<open>str(e)\<close> is enough. A computation that can
  raise returns \<open>exn + 'a\<close>, with \<open>Inl\<close> for the exception.
\<close>

datatype exn = RequestError str | SMTPError str | ValueError str | OSError str

fun exn_str :: "exn \<Rightarrow> str" where
  "exn_str (RequestError m) = m"
| "exn_str (SMTPError m) = m"
| "exn_str (ValueError m) = m"
| "exn_str (OSError m) = m"

text \<open>
  The library functions the program calls are not part of the repository; they are
  parameters of the model. \<open>'soup\<close> is the type of a parsed document.
  \<^item> \<open>html_parser html\<close> is \<open>BeautifulSoup(html, "html.parser")\<close>;
  \<^item> \<open>decompose_tags names soup\<close> is the document after \<open>tag.decompose()\<close> for every tag
    of \<open>soup(names)\<close>;
  \<^item> \<open>get_text soup\<close> is \<open>soup.get_text(separator="\n", strip=True)\<close>;
  \<^item> \<open>find_all_a_href soup\<close> lists \<open>a["href"]\<close> for the tags of
    \<open>soup.find_all("a", href=True)\<close>, in document order;
  \<^item> \<open>urljoin\<close> is \<open>urllib.parse.urljoin\<close>;
  \<^item> \<open>sha256_hexdigest text\<close> is \<open>hashlib.sha256(text.encode("utf-8")).hexdigest()\<close>;
  \<^item> \<open>unified_diff a b\<close> is the list of the lines of
    \<open>difflib.unified_diff(a, b, lineterm="", fromfile="previous", tofile="current")\<close>;
  \<^item> \<open>py_int s\<close> is \<open>int(s)\<close>, which raises ValueError on a text that is no number.
\<close>

record 'soup library =
  html_parser :: "str \<Rightarrow> 'soup"
  decompose_tags :: "str list \<Rightarrow> 'soup \<Rightarrow> 'soup"
  get_text :: "'soup \<Rightarrow> str"
  find_all_a_href :: "'soup \<Rightarrow> str list"
  urljoin :: "str \<Rightarrow> str \<Rightarrow> str"
  sha256_hexdigest :: "str \<Rightarrow> str"
  unified_diff :: "str list \<Rightarrow> str list \<Rightarrow> str list"
  py_int :: "str \<Rightarrow> exn + int"

text \<open>One SMTP session of \<open>send_email\<close>: connect, \<open>starttls\<close>, \<open>login\<close>, \<open>sendmail\<close>.\<close>

record smtp_request =
  smtp_server :: str
  smtp_port :: int
  smtp_user :: str
  smtp_pass :: str
  email_from :: str
  email_to :: str
  mail_subject :: str
  mail_body :: str

text \<open>The POST of \<open>send_telegram\<close>: the URL of the bot API, the chat and the text.\<close>

record telegram_request =
  api_url :: str
  chat_id :: str
  message_text :: str

text \<open>
  What a run reads from outside and cannot change: the process environment (after
  \<open>load_dotenv\<close>), the answer of the web server (\<open>requests.get\<close>, \<open>raise_for_status\<close>,
  \<open>resp.text\<close>), the result of each network send (\<open>None\<close> when it succeeds, the exception
  it raises otherwise), the formatted UTC time, and what the file system answers when
  the state is written:
  \<^item> \<open>makedirs\<close> is the result of \<open>os.makedirs(state_dir, exist_ok=True)\<close>;
  \<^item> \<open>open_write name\<close> is the result of \<open>open(path, "w")\<close> for the state file of that
    name: \<open>None\<close> when the file is opened, and so emptied, the exception otherwise (a
    directory at the path, no permission);
  \<^item> \<open>file_write name s\<close> is the result of writing \<open>s\<close> to the opened file and closing
    it: \<open>None\<close> when all of \<open>s\<close> is written, otherwise the exception with the text
    left in the file.
\<close>

record outside =
  environ :: "string \<Rightarrow> str option"
  requests_get :: "str \<Rightarrow> exn + str"
  requests_post :: "telegram_request \<Rightarrow> exn option"
  smtp_session :: "smtp_request \<Rightarrow> exn option"
  utc_now :: str
  makedirs :: "exn option"
  open_write :: "string \<Rightarrow> exn option"
  file_write :: "string \<Rightarrow> str \<Rightarrow> (exn \<times> str) option"

text \<open>
  What a run changes: the three files of the state directory, the network sends it has
  made (each with its result) and the lines printed to stdout and stderr.
\<close>

datatype disk_file = Missing | Unreadable exn | Content str

record state_dir =
  last_hash_txt :: disk_file
  last_text_txt :: disk_file
  last_listings_txt :: disk_file

datatype net_call = TelegramPost telegram_request | SmtpSend smtp_request

datatype line = Out str | Err str

record world =
  state_files :: state_dir
  net_log :: "(net_call \<times> exn option) list"
  console :: "line list"

definition DEFAULT_URL :: str where
  "DEFAULT_URL = lit (''https://www.psoas.fi/en/apartments/?_sfm_htyyppi=k-%2C-p-%2C-y''
     @ ''&_sfm_huoneistojen_tilanne=vapaa_ja_vapautumassa&_sfm_koko=7+84''
     @ ''&_sfm_vuokra=161+791&_sfm_huonelkm=1+7'')"

text \<open>\<open>os.getenv(name, default)\<close> and the truth value Python gives an optional string.\<close>

definition getenv_or :: "outside \<Rightarrow> string \<Rightarrow> str \<Rightarrow> str" where
  "getenv_or W name dflt = (case environ W name of None \<Rightarrow> dflt | Some v \<Rightarrow> v)"

definition truthy :: "str option \<Rightarrow> bool" where
  "truthy v = (case v of None \<Rightarrow> False | Some s \<Rightarrow> s \<noteq> [])"

definition env_bool :: "outside \<Rightarrow> string \<Rightarrow> bool \<Rightarrow> bool" where
  "env_bool W name dflt =
     (case environ W name of
        None \<Rightarrow> dflt
      | Some val \<Rightarrow> lower (strip val) \<in> {lit ''1'', lit ''true'', lit ''yes'', lit ''on''})"

definition print_line :: "line \<Rightarrow> world \<Rightarrow> world" where
  "print_line l w = w\<lparr>console := console w @ [l]\<rparr>"

section \<open>Text normalizer, fingerprint, differ\<close>

definition normalize_text :: "'soup library \<Rightarrow> str \<Rightarrow> str" where
  "normalize_text L html =
     (let soup = decompose_tags L [lit ''script'', lit ''style'', lit ''noscript'']
                   (html_parser L html);
          text = get_text L soup;
          lines = map strip (splitlines text);
          lines = filter (\<lambda>ln. ln \<noteq> []) lines
      in join [10] lines)"

definition stable_hash :: "'soup library \<Rightarrow> str \<Rightarrow> str" where
  "stable_hash L text = sha256_hexdigest L text"

definition diff_marker :: str where
  "diff_marker = lit ''... (diff truncated) ...''"

definition make_diff_lines :: "'soup library \<Rightarrow> str \<Rightarrow> str \<Rightarrow> int \<Rightarrow> str list" where
  "make_diff_lines L old new max_lines =
     (let lines = unified_diff L (splitlines old) (splitlines new)
      in if int (length lines) > max_lines
         then slice_to max_lines lines @ [diff_marker]
         else lines)"

definition make_diff :: "'soup library \<Rightarrow> str \<Rightarrow> str \<Rightarrow> int \<Rightarrow> str" where
  "make_diff L old new max_lines = join [10] (make_diff_lines L old new max_lines)"

section \<open>Listing extractor\<close>

definition DETAIL_PREFIX :: str where
  "DETAIL_PREFIX = lit ''/en/apartments/''"

text \<open>One pass of the loop over the anchors: \<open>links\<close> is the set built so far.\<close>

definition listing_step :: "'soup library \<Rightarrow> str \<Rightarrow> str \<Rightarrow> str set \<Rightarrow> str set" where
  "listing_step L base_url a_href links =
     (let href = strip a_href;
          abs_url = urljoin L base_url href
      in if contains abs_url DETAIL_PREFIX then
           if 63 \<in> set abs_url then links
           else let tail = last (str_split DETAIL_PREFIX abs_url)
                in if tail \<noteq> [] \<and> strip_chars [47] tail \<noteq> []
                   then insert (rstrip_chars [47] abs_url) links
                   else links
         else links)"

definition extract_listings :: "'soup library \<Rightarrow> str \<Rightarrow> str \<Rightarrow> str set" where
  "extract_listings L html base_url =
     fold (listing_step L base_url) (find_all_a_href L (html_parser L html)) {}"

section \<open>State store\<close>

text \<open>
  The state files are opened in text mode: reading translates \<open>\r\n\<close> and \<open>\r\<close> to
  \<open>\n\<close>. Opening a missing file raises, as does opening or decoding an unreadable one.
\<close>

fun universal_newlines :: "str \<Rightarrow> str" where
  "universal_newlines [] = []"
| "universal_newlines [c] = (if c = 13 then [10] else [c])"
| "universal_newlines (c # d # cs) =
     (if c = 13 \<and> d = 10 then 10 # universal_newlines cs
      else if c = 13 then 10 # universal_newlines (d # cs)
      else c # universal_newlines (d # cs))"

definition path_exists :: "disk_file \<Rightarrow> bool" where
  "path_exists f = (f \<noteq> Missing)"

definition read_file :: "disk_file \<Rightarrow> exn + str" where
  "read_file f =
     (case f of
        Missing \<Rightarrow> Inl (OSError (lit ''No such file or directory''))
      | Unreadable e \<Rightarrow> Inl e
      | Content c \<Rightarrow> Inr (universal_newlines c))"

text \<open>Iterating over an open text file: its lines, each with its \<open>\n\<close> when it has one.\<close>

fun file_lines :: "str \<Rightarrow> str list" where
  "file_lines [] = []"
| "file_lines (c # cs) =
     (if c = 10 then [10] # file_lines cs
      else (case file_lines cs of [] \<Rightarrow> [[c]] | l # ls \<Rightarrow> (c # l) # ls))"

text \<open>
  The three values \<open>read_state\<close> returns. The body of its \<open>try\<close> assigns them one
  after the other, so an exception leaves the later ones at their initial values.
\<close>

record state_vars =
  last_hash :: "str option"
  last_text :: "str option"
  last_listings :: "str set"

definition read_state_try :: "state_dir \<Rightarrow> state_vars \<times> exn option" where
  "read_state_try d =
     (let v0 = \<lparr>last_hash = None, last_text = None, last_listings = {}\<rparr> in
      case (if path_exists (last_hash_txt d)
            then (case read_file (last_hash_txt d) of
                    Inl e \<Rightarrow> Inl e
                  | Inr c \<Rightarrow> Inr (v0\<lparr>last_hash := (if strip c = [] then None else Some (strip c))\<rparr>))
            else Inr v0) of
        Inl e \<Rightarrow> (v0, Some e)
      | Inr v1 \<Rightarrow>
          (case (if path_exists (last_text_txt d)
                 then (case read_file (last_text_txt d) of
                         Inl e \<Rightarrow> Inl e
                       | Inr c \<Rightarrow> Inr (v1\<lparr>last_text := Some c\<rparr>))
                 else Inr v1) of
             Inl e \<Rightarrow> (v1, Some e)
           | Inr v2 \<Rightarrow>
               (case (if path_exists (last_listings_txt d)
                      then (case read_file (last_listings_txt d) of
                              Inl e \<Rightarrow> Inl e
                            | Inr c \<Rightarrow>
                                Inr (v2\<lparr>last_listings :=
                                  set (filter (\<lambda>ln. ln \<noteq> []) (map strip (file_lines c)))\<rparr>))
                      else Inr v2) of
                  Inl e \<Rightarrow> (v2, Some e)
                | Inr v3 \<Rightarrow> (v3, None))))"

text \<open>
  \<open>read_state\<close>: the \<open>try\<close> block under its \<open>except Exception\<close> handler, which prints a
  warning to stderr. The result holds the values and the lines printed.
\<close>

definition read_state :: "state_dir \<Rightarrow> exn + (state_vars \<times> line list)" where
  "read_state d =
     (case read_state_try d of
        (v, None) \<Rightarrow> Inr (v, [])
      | (v, Some e) \<Rightarrow> Inr (v, [Err (lit ''[WARN] Failed to read state: '' @ exn_str e)]))"

text \<open>
  \<open>with open(path, "w") as f: f.write(content)\<close> for one state file: the file after
  it, and the exception raised, if any. A file that cannot be opened is left as it was.
\<close>

definition write_file :: "outside \<Rightarrow> string \<Rightarrow> str \<Rightarrow> disk_file \<Rightarrow> disk_file \<times> exn option" where
  "write_file W name content f =
     (case open_write W name of
        Some e \<Rightarrow> (f, Some e)
      | None \<Rightarrow>
          (case file_write W name content of
             Some (e, left) \<Rightarrow> (Content left, Some e)
           | None \<Rightarrow> (Content content, None)))"

text \<open>
  \<open>write_state\<close>: the state directory after it, and the exception raised, if any. The
  directory is created, then the hash, the text and the listings are written in this
  order, the listings one URL a line, sorted (the lines of the listing file are taken
  as one write); the first exception ends the function and leaves the files not yet
  written as they were.
\<close>

definition write_state ::
  "outside \<Rightarrow> state_dir \<Rightarrow> str \<Rightarrow> str \<Rightarrow> str set option \<Rightarrow> state_dir \<times> exn option" where
  "write_state W d h text listings =
     (case makedirs W of
        Some e \<Rightarrow> (d, Some e)
      | None \<Rightarrow>
          (case write_file W ''last_hash.txt'' h (last_hash_txt d) of
             (f1, Some e) \<Rightarrow> (d\<lparr>last_hash_txt := f1\<rparr>, Some e)
           | (f1, None) \<Rightarrow>
               (case write_file W ''last_text.txt'' text (last_text_txt d) of
                  (f2, Some e) \<Rightarrow> (d\<lparr>last_hash_txt := f1, last_text_txt := f2\<rparr>, Some e)
                | (f2, None) \<Rightarrow>
                    (case listings of
                       None \<Rightarrow> (d\<lparr>last_hash_txt := f1, last_text_txt := f2\<rparr>, None)
                     | Some ls \<Rightarrow>
                         (case write_file W ''last_listings.txt''
                                 (concat (map (\<lambda>url. url @ [10]) (sorted_list_of_set ls)))
                                 (last_listings_txt d) of
                            (f3, r) \<Rightarrow>
                              (d\<lparr>last_hash_txt := f1, last_text_txt := f2,
                                 last_listings_txt := f3\<rparr>, r))))))"

section \<open>Notifier\<close>

definition send_telegram :: "outside \<Rightarrow> str \<Rightarrow> world \<Rightarrow> world" where
  "send_telegram W message w =
     (let token = environ W ''TELEGRAM_BOT_TOKEN'';
          chat = environ W ''TELEGRAM_CHAT_ID''
      in if \<not> (truthy token \<and> truthy chat)
         then print_line (Err (lit ''[WARN] Telegram not configured; skipping Telegram send.'')) w
         else
           let req = \<lparr>api_url = lit ''https://api.telegram.org/bot'' @ the token
                                  @ lit ''/sendMessage'',
                      chat_id = the chat, message_text = message\<rparr>;
               r = requests_post W req;
               w1 = w\<lparr>net_log := net_log w @ [(TelegramPost req, r)]\<rparr>
           in case r of
                None \<Rightarrow> w1
              | Some e \<Rightarrow>
                  print_line (Err (lit ''[WARN] Failed to send Telegram message: '' @ exn_str e)) w1)"

definition send_email ::
  "'soup library \<Rightarrow> outside \<Rightarrow> str \<Rightarrow> str \<Rightarrow> world \<Rightarrow> world \<times> (exn + unit)" where
  "send_email L W subject body w =
     (let server = getenv_or W ''SMTP_SERVER'' (lit ''smtp.gmail.com'') in
      case py_int L (getenv_or W ''SMTP_PORT'' (lit ''587'')) of
        Inl e \<Rightarrow> (w, Inl e)
      | Inr port \<Rightarrow>
          let user = environ W ''SMTP_USERNAME'';
              pass = environ W ''SMTP_PASSWORD'';
              sender = getenv_or W ''EMAIL_FROM'' (if truthy user then the user else []);
              rcpt = getenv_or W ''RECIPIENT_EMAIL'' (lit ''litecointele@gmail.com'')
          in if \<not> (truthy user \<and> truthy pass \<and> sender \<noteq> [] \<and> rcpt \<noteq> [])
             then (print_line (Err (lit ''[WARN] Missing SMTP configuration; email not sent.'')) w,
                   Inr ())
             else
               let req = \<lparr>smtp_server = server, smtp_port = port, smtp_user = the user,
                          smtp_pass = the pass, email_from = sender, email_to = rcpt,
                          mail_subject = subject, mail_body = body\<rparr>;
                   r = smtp_session W req;
                   w1 = w\<lparr>net_log := net_log w @ [(SmtpSend req, r)]\<rparr>
               in (case r of None \<Rightarrow> (w1, Inr ()) | Some e \<Rightarrow> (w1, Inl e)))"

text \<open>
  The two sends every notifying path of \<open>run_once\<close> makes, Telegram first: an exception
  of \<open>send_email\<close> leaves through the caller.
\<close>

definition notify ::
  "'soup library \<Rightarrow> outside \<Rightarrow> str \<Rightarrow> str \<Rightarrow> str \<Rightarrow> world \<Rightarrow> world \<times> (exn + unit)" where
  "notify L W telegram_text subject body w =
     send_email L W subject body (send_telegram W telegram_text w)"

section \<open>Run orchestrator\<close>

definition debug_print :: "bool \<Rightarrow> str \<Rightarrow> world \<Rightarrow> world" where
  "debug_print debug msg w = (if debug then print_line (Out msg) w else w)"

text \<open>The branch of \<open>run_once\<close> taken when \<open>last_hash is None\<close>.\<close>

definition baseline_subject :: str where
  "baseline_subject = lit ''PSOAS page baseline saved (first run)''"

definition run_baseline ::
  "'soup library \<Rightarrow> outside \<Rightarrow> bool \<Rightarrow> str \<Rightarrow> bool \<Rightarrow> str \<Rightarrow> str \<Rightarrow> str set \<Rightarrow> world
     \<Rightarrow> world \<times> (exn + int)" where
  "run_baseline L W debug url notify_first h text listings w =
     (case write_state W (state_files w) h text (Some listings) of
        (d, Some e) \<Rightarrow> (w\<lparr>state_files := d\<rparr>, Inl e)
      | (d, None) \<Rightarrow>
          (let w1 = w\<lparr>state_files := d\<rparr> in
           if notify_first then
             let subject = baseline_subject;
                 ts = utc_now W;
                 body = lit ''Time: '' @ ts @ [10] @ lit ''URL: '' @ url @ [10, 10]
                        @ lit ''Baseline content saved. Notifications will be sent on changes.''
             in (case notify L W (subject @ [10] @ body) subject body w1 of
                   (w2, Inl e) \<Rightarrow> (w2, Inl e)
                 | (w2, Inr u) \<Rightarrow>
                     (debug_print debug (lit ''[INFO] Baseline saved. Notified first run.'') w2,
                      Inr 0))
           else (debug_print debug (lit ''[INFO] Baseline saved.'') w1, Inr 0)))"

text \<open>The branch taken when \<open>new_listings\<close> is not empty.\<close>

definition new_listings_subject :: str where
  "new_listings_subject = lit ''New PSOAS listings available''"

definition new_listings_message :: "outside \<Rightarrow> str \<Rightarrow> str list \<Rightarrow> str" where
  "new_listings_message W url new_listings =
     (let ts = utc_now W;
          header = lit ''New PSOAS listings detected ('' @ str_nat (length new_listings)
                   @ lit '') @ '' @ ts;
          sample = join [10] (take 10 new_listings);
          sample = (if length new_listings > 10
                    then sample @ [10] @ lit ''... and ''
                         @ str_nat (length new_listings - 10) @ lit '' more''
                    else sample)
      in header @ [10] @ lit ''URL: '' @ url @ [10, 10] @ sample)"

definition run_new_listings ::
  "'soup library \<Rightarrow> outside \<Rightarrow> bool \<Rightarrow> str \<Rightarrow> str list \<Rightarrow> str \<Rightarrow> str \<Rightarrow> str set \<Rightarrow> world
     \<Rightarrow> world \<times> (exn + int)" where
  "run_new_listings L W debug url new_listings h text listings w =
     (let message = new_listings_message W url new_listings;
          w1 = debug_print debug (lit ''[INFO] New listings detected, sending Telegram/email...'') w
      in case notify L W message new_listings_subject message w1 of
           (w2, Inl e) \<Rightarrow> (w2, Inl e)
         | (w2, Inr u) \<Rightarrow>
             (case write_state W (state_files w2) h text (Some listings) of
                (d, Some e) \<Rightarrow> (w2\<lparr>state_files := d\<rparr>, Inl e)
              | (d, None) \<Rightarrow> (w2\<lparr>state_files := d\<rparr>, Inr 0)))"

text \<open>The branch taken when the hash differs from the stored one.\<close>

definition changed_subject :: "outside \<Rightarrow> str" where
  "changed_subject W = lit ''PSOAS page changed @ '' @ utc_now W"

definition changed_body :: "'soup library \<Rightarrow> str \<Rightarrow> str \<Rightarrow> str option \<Rightarrow> str \<Rightarrow> str \<Rightarrow> str" where
  "changed_body L url prev_hash prev_text h text =
     (let diff_text = make_diff L (case prev_text of None \<Rightarrow> [] | Some t \<Rightarrow> t) text 2000
      in lit ''URL: '' @ url @ [10, 10] @ lit ''Change detected. Hash: '' @ prev_hash
         @ lit '' -> '' @ h @ [10, 10] @ lit ''Diff:'' @ [10] @ diff_text @ [10])"

definition run_page_changed ::
  "'soup library \<Rightarrow> outside \<Rightarrow> bool \<Rightarrow> str \<Rightarrow> str \<Rightarrow> str option \<Rightarrow> str \<Rightarrow> str \<Rightarrow> str set
     \<Rightarrow> world \<Rightarrow> world \<times> (exn + int)" where
  "run_page_changed L W debug url prev_hash prev_text h text listings w =
     (let subject = changed_subject W;
          body = changed_body L url prev_hash prev_text h text;
          w1 = debug_print debug (lit ''[INFO] Change detected, sending email...'') w
      in case notify L W (subject @ [10] @ body) subject body w1 of
           (w2, Inl e) \<Rightarrow> (w2, Inl e)
         | (w2, Inr u) \<Rightarrow>
             (case write_state W (state_files w2) h text (Some listings) of
                (d, Some e) \<Rightarrow> (w2\<lparr>state_files := d\<rparr>, Inl e)
              | (d, None) \<Rightarrow> (w2\<lparr>state_files := d\<rparr>, Inr 0)))"

text \<open>
  \<open>run_once\<close>: fetch, normalize, hash, extract, read the state, then the first branch
  that applies. The result is the world after the run with the value returned or the
  exception raised.
\<close>

definition run_once ::
  "'soup library \<Rightarrow> outside \<Rightarrow> bool \<Rightarrow> world \<Rightarrow> world \<times> (exn + int)" where
  "run_once L W debug w =
     (let url = getenv_or W ''URL'' DEFAULT_URL;
          notify_first = env_bool W ''NOTIFY_ON_FIRST_RUN'' False;
          w1 = debug_print debug (lit ''[INFO] Fetching: '' @ url) w
      in case requests_get W url of
           Inl e \<Rightarrow> (w1, Inl e)
         | Inr html \<Rightarrow>
             (let text = normalize_text L html;
                  h = stable_hash L text;
                  listings = extract_listings L html url
              in case read_state (state_files w1) of
                   Inl e \<Rightarrow> (w1, Inl e)
                 | Inr (v, warnings) \<Rightarrow>
                     (let w2 = w1\<lparr>console := console w1 @ warnings\<rparr> in
                      case last_hash v of
                        None \<Rightarrow> run_baseline L W debug url notify_first h text listings w2
                      | Some prev_hash \<Rightarrow>
                          (let new_listings = sorted_list_of_set (listings - last_listings v)
                           in if new_listings \<noteq> []
                              then run_new_listings L W debug url new_listings h text listings w2
                              else if h \<noteq> prev_hash
                              then run_page_changed L W debug url prev_hash (last_text v)
                                     h text listings w2
                              else (debug_print debug (lit ''[INFO] No change detected.'') w2,
                                    Inr 0)))))"

text \<open>
  \<open>main\<close>: the exit status of the process. An exception of \<open>run_once\<close> is printed and
  reported as configured, and the process exits with 1; an exception raised by the
  handler itself is not caught, which ends the process with status 1 as well.
\<close>

definition main :: "'soup library \<Rightarrow> outside \<Rightarrow> bool \<Rightarrow> world \<Rightarrow> world \<times> int" where
  "main L W debug w =
     (case run_once L W debug w of
        (w1, Inr return_code) \<Rightarrow> (w1, return_code)
      | (w1, Inl e) \<Rightarrow>
          (let w2 = print_line (Err (lit ''[ERROR] '' @ exn_str e)) w1 in
           case (if env_bool W ''EMAIL_ON_ERROR'' False
                 then send_email L W (lit ''PSOAS watcher error'') (exn_str e) w2
                 else (w2, Inr ())) of
             (w3, Inl e2) \<Rightarrow> (w3, 1)
           | (w3, Inr u) \<Rightarrow>
               (if env_bool W ''TELEGRAM_ON_ERROR'' True
                then send_telegram W (lit ''PSOAS watcher error: '' @ exn_str e) w3
                else w3, 1)))"

section \<open>Sample inputs\<close>

text \<open>
  The examples below need the libraries at a few inputs. \<open>sample_library\<close> tabulates
  what they return there: the document \<open>html.parser\<close> builds from five small pages and
  from two texts with character references (its text and the \<open>href\<close> values of its
  anchors), the text of a string without markup (itself), the SHA-256 digests of the
  five texts, the unified diffs of two pairs of texts, \<open>int("587")\<close>, and \<open>urljoin\<close> on
  an absolute \<open>https\<close> reference, which it returns as it is. None of the pages has a
  \<open>script\<close>, \<open>style\<close> or \<open>noscript\<close> tag.
\<close>

datatype doc = Doc (doc_text: str) (doc_hrefs: "str list")

definition url_a1 :: str where
  "url_a1 = lit ''https://www.psoas.fi/en/apartments/a1''"

definition url_b2 :: str where
  "url_b2 = lit ''https://www.psoas.fi/en/apartments/b2''"

definition url_top :: str where
  "url_top = lit ''https://www.psoas.fi/en/apartments/#top''"

definition url_foo :: str where
  "url_foo = lit ''https://www.psoas.fi/en/apartments/foo ''"

definition page_a1 :: str where
  \<open>page_a1 = lit ''<a href="https://www.psoas.fi/en/apartments/a1/">A1</a>''\<close>

definition page_a1_b2 :: str where
  \<open>page_a1_b2 = lit (''<a href="https://www.psoas.fi/en/apartments/a1/">A1</a>''
     @ ''<a href="https://www.psoas.fi/en/apartments/b2/">B2</a>'')\<close>

definition page_a1_free :: str where
  \<open>page_a1_free = lit ''<a href="https://www.psoas.fi/en/apartments/a1/">A1 free</a>''\<close>

definition page_top :: str where
  \<open>page_top = lit ''<a href="https://www.psoas.fi/en/apartments/#top">Top</a>''\<close>

definition page_foo :: str where
  \<open>page_foo = lit ''<a href="https://www.psoas.fi/en/apartments/foo /">Foo</a>''\<close>

definition text_a1 :: str where
  "text_a1 = lit ''A1''"

definition text_a1_b2 :: str where
  "text_a1_b2 = lit ''A1'' @ [10] @ lit ''B2''"

definition text_a1_free :: str where
  "text_a1_free = lit ''A1 free''"

definition text_top :: str where
  "text_top = lit ''Top''"

definition text_foo :: str where
  "text_foo = lit ''Foo''"

definition sample_parser :: "str \<Rightarrow> doc" where
  "sample_parser html =
     (if html = page_a1 then Doc text_a1 [url_a1 @ [47]]
      else if html = page_a1_b2 then Doc text_a1_b2 [url_a1 @ [47], url_b2 @ [47]]
      else if html = page_a1_free then Doc text_a1_free [url_a1 @ [47]]
      else if html = page_top then Doc text_top [url_top]
      else if html = page_foo then Doc text_foo [url_foo @ [47]]
      else if html = lit ''&amp;amp;'' then Doc (lit ''&amp;'') []
      else if html = lit ''&amp;'' then Doc (lit ''&'') []
      else Doc html [])"

definition digest_a1 :: str where
  "digest_a1 = lit ''16a36e86f6fed5d465ff332511a0ce1a863b55d364b25a7cdaa25db19abf9648''"

definition digest_a1_b2 :: str where
  "digest_a1_b2 = lit ''d0b7f8aa5171570c37bf23cdccdb0ceb7a9119a06ef98a352b90a638af8a24cd''"

definition digest_a1_free :: str where
  "digest_a1_free = lit ''7fafe5ea8441064ff1276912cddb3edf85cdaca8b34d7335fc68faa21186b469''"

definition digest_foo :: str where
  "digest_foo = lit ''1cbec737f863e4922cee63cc2ebbfaafcd1cff8b790d8cfd2e6a5d550b648afa''"

definition digest_top :: str where
  "digest_top = lit ''d5cdfcf7ff75338fa974145a13378ee35f7ea04cfabd74b8f5fb6df350cfbcca''"

definition sample_digest :: "str \<Rightarrow> str" where
  "sample_digest text =
     (if text = text_a1 then digest_a1
      else if text = text_a1_b2 then digest_a1_b2
      else if text = text_a1_free then digest_a1_free
      else if text = text_foo then digest_foo
      else if text = text_top then digest_top
      else [])"

definition diff_a1_free :: "str list" where
  "diff_a1_free = [lit ''--- previous'', lit ''+++ current'', lit ''@@ -1 +1 @@'',
                   lit ''-A1'', lit ''+A1 free'']"

definition diff_a1_b2 :: "str list" where
  "diff_a1_b2 = [lit ''--- previous'', lit ''+++ current'', lit ''@@ -1 +1,2 @@'',
                 lit '' A1'', lit ''+B2'']"

definition sample_diff :: "str list \<Rightarrow> str list \<Rightarrow> str list" where
  "sample_diff a b =
     (if a = [lit ''A1''] \<and> b = [lit ''A1 free''] then diff_a1_free
      else if a = [lit ''A1''] \<and> b = [lit ''A1'', lit ''B2''] then diff_a1_b2
      else [])"

definition sample_int :: "str \<Rightarrow> exn + int" where
  "sample_int s =
     (if s = lit ''587'' then Inr 587
      else Inl (ValueError (lit ''invalid literal for int() with base 10'')))"

definition sample_library :: "doc library" where
  "sample_library =
     \<lparr>html_parser = sample_parser,
      decompose_tags = (\<lambda>names soup. soup),
      get_text = doc_text,
      find_all_a_href = doc_hrefs,
      urljoin = (\<lambda>base href. href),
      sha256_hexdigest = sample_digest,
      unified_diff = sample_diff,
      py_int = sample_int\<rparr>"

text \<open>
  An environment with both channels configured, with or without the toggle for the
  first run; the outside world that serves a given page, gives a given result to each
  SMTP session and lets every state file be written; the same with a state file that
  cannot be opened for writing; the worlds before a first run and after a run on
  \<open>page_a1\<close>.
\<close>

definition sample_environ :: "bool \<Rightarrow> string \<Rightarrow> str option" where
  "sample_environ first name =
     (if name = ''TELEGRAM_BOT_TOKEN'' then Some (lit ''T0K'')
      else if name = ''TELEGRAM_CHAT_ID'' then Some (lit ''42'')
      else if name = ''SMTP_USERNAME'' then Some (lit ''me@psoas.fi'')
      else if name = ''SMTP_PASSWORD'' then Some (lit ''pw'')
      else if name = ''NOTIFY_ON_FIRST_RUN'' \<and> first then Some (lit ''1'')
      else None)"

definition sample_outside :: "bool \<Rightarrow> str \<Rightarrow> exn option \<Rightarrow> outside" where
  "sample_outside first page smtp_result =
     \<lparr>environ = sample_environ first,
      requests_get = (\<lambda>url. Inr page),
      requests_post = (\<lambda>req. None),
      smtp_session = (\<lambda>req. smtp_result),
      utc_now = lit ''2024-05-01 12:00:00 UTC'',
      makedirs = None,
      open_write = (\<lambda>name. None),
      file_write = (\<lambda>name s. None)\<rparr>"

definition denied :: exn where
  "denied = OSError (lit ''Permission denied'')"

definition sample_outside_locked :: "string \<Rightarrow> str \<Rightarrow> outside" where
  "sample_outside_locked locked page =
     (sample_outside False page None)
       \<lparr>open_write := (\<lambda>name. if name = locked then Some denied else None)\<rparr>"

definition smtp_down :: exn where
  "smtp_down = SMTPError (lit ''Connection refused'')"

definition world_first :: world where
  "world_first =
     \<lparr>state_files = \<lparr>last_hash_txt = Missing, last_text_txt = Missing,
                      last_listings_txt = Missing\<rparr>,
      net_log = [], console = []\<rparr>"

definition files_a1 :: state_dir where
  "files_a1 =
     \<lparr>last_hash_txt = Content digest_a1,
      last_text_txt = Content text_a1,
      last_listings_txt = Content (url_a1 @ [10])\<rparr>"

definition world_a1 :: world where
  "world_a1 = \<lparr>state_files = files_a1, net_log = [], console = []\<rparr>"

definition files_blank_hash :: state_dir where
  "files_blank_hash = files_a1\<lparr>last_hash_txt := Content (lit ''  '' @ [10])\<rparr>"

definition world_blank_hash :: world where
  "world_blank_hash = \<lparr>state_files = files_blank_hash, net_log = [], console = []\<rparr>"



section \<open>Reading a notification\<close>

text \<open>
  The text a network send carries: the message of a Telegram post, the subject and the
  body of a mail. The three kinds of notification differ in how this text starts.
\<close>

fun notification_text :: "net_call \<Rightarrow> str" where
  "notification_text (TelegramPost req) = message_text req"
| "notification_text (SmtpSend req) = mail_subject req @ [10] @ mail_body req"

definition sent_since :: "world \<Rightarrow> world \<Rightarrow> (net_call \<times> exn option) list" where
  "sent_since w w' = drop (length (net_log w)) (net_log w')"

section \<open>Facts about lines, stripping and splitting\<close>

text \<open>
  \<open>splitlines\<close> gives back the lines that \<open>join\<close> put together, when no line is empty
  or holds a line boundary; its lines never hold one.
\<close>

lemma splitlines_aux_plain:
  "\<not> is_linebreak c \<Longrightarrow> splitlines_aux cur (c # s) = splitlines_aux (cur @ [c]) s"
  by (cases s) (auto simp: is_linebreak_def)

lemma splitlines_aux_newline:
  "splitlines_aux cur (10 # s) = cur # splitlines_aux [] s"
  by (cases s) (simp_all add: is_linebreak_def)

lemma splitlines_aux_line:
  "\<forall>c\<in>set l. \<not> is_linebreak c \<Longrightarrow> splitlines_aux cur (l @ s) = splitlines_aux (cur @ l) s"
  by (induction l arbitrary: cur) (simp_all add: splitlines_aux_plain)

lemma splitlines_aux_join:
  assumes "\<forall>l\<in>set (x # ls). l \<noteq> [] \<and> (\<forall>c\<in>set l. \<not> is_linebreak c)"
  shows "splitlines_aux [] (join [10] (x # ls)) = x # ls"
  using assms
proof (induction ls arbitrary: x)
  case Nil
  then show ?case
    using splitlines_aux_line [of x "[]" "[]"] by simp
next
  case (Cons y ys)
  have "splitlines_aux [] (x @ 10 # join [10] (y # ys)) = splitlines_aux x (10 # join [10] (y # ys))"
    using Cons.prems splitlines_aux_line [of x "[]" "10 # join [10] (y # ys)"] by simp
  also have "\<dots> = x # splitlines_aux [] (join [10] (y # ys))"
    by (rule splitlines_aux_newline)
  also have "\<dots> = x # y # ys"
    using Cons.IH [of y] Cons.prems by simp
  finally show ?case by simp
qed

lemma splitlines_join:
  assumes "\<forall>l\<in>set ls. l \<noteq> [] \<and> (\<forall>c\<in>set l. \<not> is_linebreak c)"
  shows "splitlines (join [10] ls) = ls"
proof (cases ls)
  case Nil
  then show ?thesis by (simp add: splitlines_def)
next
  case (Cons x xs)
  then show ?thesis using assms splitlines_aux_join [of x xs] by (simp add: splitlines_def)
qed

lemma splitlines_aux_no_linebreak:
  "(\<forall>c\<in>set cur. \<not> is_linebreak c)
     \<Longrightarrow> (\<forall>l\<in>set (splitlines_aux cur s). \<forall>c\<in>set l. \<not> is_linebreak c)"
proof (induction cur s rule: splitlines_aux.induct)
  case (1 cur)
  then show ?case by simp
next
  case (2 cur c)
  then show ?case by simp
next
  case (3 cur c d cs)
  show ?case
  proof (cases "c = 13 \<and> d = 10")
    case True
    have "\<forall>l\<in>set (splitlines_aux [] cs). \<forall>c\<in>set l. \<not> is_linebreak c"
      using "3.IH"(1) [OF True] by simp
    moreover have "splitlines_aux cur (c # d # cs) = cur # splitlines_aux [] cs"
      using True by simp
    ultimately show ?thesis using "3.prems" by simp
  next
    case nocrlf: False
    show ?thesis
    proof (cases "is_linebreak c")
      case True
      have "\<forall>l\<in>set (splitlines_aux [] (d # cs)). \<forall>c\<in>set l. \<not> is_linebreak c"
        using "3.IH"(2) [OF nocrlf True] by simp
      moreover have "splitlines_aux cur (c # d # cs) = cur # splitlines_aux [] (d # cs)"
        using True nocrlf by (cases "c = 13"; simp)
      ultimately show ?thesis using "3.prems" by simp
    next
      case False
      then have "\<forall>c'\<in>set (cur @ [c]). \<not> is_linebreak c'" using "3.prems" by simp
      then have "\<forall>l\<in>set (splitlines_aux (cur @ [c]) (d # cs)). \<forall>c\<in>set l. \<not> is_linebreak c"
        by (rule "3.IH"(3) [OF nocrlf False])
      moreover have "splitlines_aux cur (c # d # cs) = splitlines_aux (cur @ [c]) (d # cs)"
        using False nocrlf by (cases "c = 13"; simp)
      ultimately show ?thesis by simp
    qed
  qed
qed

lemma splitlines_no_linebreak:
  "l \<in> set (splitlines s) \<Longrightarrow> \<forall>c\<in>set l. \<not> is_linebreak c"
  using splitlines_aux_no_linebreak [of "[]" s] by (simp add: splitlines_def)

text \<open>
  \<open>strip\<close> keeps characters of its argument and changes nothing when applied again.
\<close>

lemma set_strip: "set (strip l) \<subseteq> set l"
proof -
  have "set (strip l) \<subseteq> set (dropWhile is_space l)"
    unfolding strip_def using set_dropWhileD by fastforce
  also have "\<dots> \<subseteq> set l" using set_dropWhileD by fastforce
  finally show ?thesis .
qed

lemma dropWhile_snoc_keep:
  "\<not> P a \<Longrightarrow> \<exists>zs. dropWhile P (ys @ [a]) = zs @ [a]"
  by (induction ys) simp_all

lemma strip_strip: "strip (strip l) = strip l"
proof -
  define t where "t = dropWhile is_space l"
  define u where "u = rev (dropWhile is_space (rev t))"
  have u: "strip l = u" by (simp add: strip_def t_def u_def)
  have su: "strip u = rev (dropWhile is_space (rev (dropWhile is_space u)))"
    by (simp add: strip_def)
  show ?thesis
  proof (cases "u = []")
    case True
    then show ?thesis unfolding u su by simp
  next
    case False
    then have tne: "t \<noteq> []" by (auto simp: u_def)
    then have ht: "\<not> is_space (hd t)"
      unfolding t_def using hd_dropWhile by blast
    have lu: "\<not> is_space (last u)"
      using False hd_dropWhile [of is_space "rev t"] by (simp add: u_def last_rev)
    obtain a t' where t: "t = a # t'" using tne by (cases t) auto
    obtain zs where "dropWhile is_space (rev t' @ [a]) = zs @ [a]"
      using dropWhile_snoc_keep [of is_space a "rev t'"] ht t by auto
    then have "u = a # rev zs" by (simp add: u_def t)
    then have hu: "\<not> is_space (hd u)" using ht t by simp
    have "dropWhile is_space u = u" using hu False by (simp add: dropWhile_eq_self_iff)
    moreover have "dropWhile is_space (rev u) = rev u"
      using lu False by (simp add: dropWhile_eq_self_iff hd_rev)
    ultimately show ?thesis unfolding u su by simp
  qed
qed

lemma strip_line:
  assumes "u \<noteq> []" and "\<not> is_space (hd u)" and "\<not> is_space (last u)"
  shows "strip (u @ [10]) = u"
proof -
  have "dropWhile is_space (u @ [10]) = u @ [10]"
    using assms(1,2) by (cases u) simp_all
  moreover have "is_space 10" by (simp add: is_space_def)
  moreover have "dropWhile is_space (rev u) = rev u"
    using assms(1,3) by (simp add: dropWhile_eq_self_iff hd_rev)
  ultimately show ?thesis by (simp add: strip_def)
qed

text \<open>
  Reading a file written one URL a line.
\<close>

lemma file_lines_line:
  "10 \<notin> set u \<Longrightarrow> file_lines (u @ 10 # rest) = (u @ [10]) # file_lines rest"
  by (induction u) simp_all

lemma file_lines_concat:
  "\<forall>u\<in>set us. 10 \<notin> set u
     \<Longrightarrow> file_lines (concat (map (\<lambda>u. u @ [10]) us)) = map (\<lambda>u. u @ [10]) us"
  by (induction us) (simp_all add: file_lines_line)

lemma universal_newlines_id: "13 \<notin> set s \<Longrightarrow> universal_newlines s = s"
  by (induction s rule: universal_newlines.induct) simp_all

text \<open>
  \<open>rstrip\<close> on a text with a character to keep, and the last piece of \<open>split\<close>: the text
  after an occurrence of the separator.
\<close>

lemma rstrip_chars_keeps:
  assumes "rstrip_chars cs b \<noteq> []"
  shows "rstrip_chars cs (a @ b) = a @ rstrip_chars cs b"
proof -
  have "\<not> (\<forall>x\<in>set (rev b). x \<in> set cs)"
    using assms by (auto simp: rstrip_chars_def)
  then show ?thesis
    by (auto simp: rstrip_chars_def dropWhile_append)
qed

lemma rstrip_chars_last:
  "rstrip_chars cs b \<noteq> [] \<Longrightarrow> last (rstrip_chars cs b) \<notin> set cs"
  using hd_dropWhile [of "\<lambda>c. c \<in> set cs" "rev b"]
  by (simp add: rstrip_chars_def last_rev)

lemma set_rstrip_chars: "set (rstrip_chars cs b) \<subseteq> set b"
  using set_dropWhileD by (fastforce simp: rstrip_chars_def)

lemma strip_chars_nonempty:
  assumes "strip_chars cs b \<noteq> []"
  shows "rstrip_chars cs b \<noteq> []"
proof -
  have "\<exists>x\<in>set (dropWhile (\<lambda>c. c \<in> set cs) b). x \<notin> set cs"
    using assms by (auto simp: strip_chars_def rstrip_chars_def)
  then have "\<exists>x\<in>set b. x \<notin> set cs"
    using set_dropWhileD by fastforce
  then show ?thesis
    by (auto simp: rstrip_chars_def)
qed

lemma startswith_append [simp]: "startswith (p @ r) p"
  by (simp add: startswith_def)

lemma startswith_split: "startswith s p \<Longrightarrow> s = p @ drop (length p) s"
  by (metis append_take_drop_id startswith_def)

lemma str_split_aux_nonempty: "str_split_aux sep cur s \<noteq> []"
  by (induction sep cur s rule: str_split_aux.induct) simp_all

lemma str_split_aux_no_sep:
  "\<not> contains s sep \<Longrightarrow> str_split_aux sep cur s = [cur @ s]"
proof (induction sep cur s rule: str_split_aux.induct)
  case (1 sep cur)
  then show ?case by simp
next
  case (2 sep cur c cs)
  then show ?case by simp
qed

lemma last_str_split_aux:
  "sep \<noteq> [] \<Longrightarrow> contains s sep
     \<Longrightarrow> \<exists>pre. s = pre @ sep @ last (str_split_aux sep cur s)"
proof (induction sep cur s rule: str_split_aux.induct)
  case (1 sep cur)
  then show ?case by simp
next
  case (2 sep cur c cs)
  show ?case
  proof (cases "startswith (c # cs) sep")
    case True
    define rest where "rest = drop (length sep) (c # cs)"
    have s: "c # cs = sep @ rest"
      using startswith_split [OF True] by (simp add: rest_def)
    have l: "last (str_split_aux sep cur (c # cs)) = last (str_split_aux sep [] rest)"
      using True "2.prems"(1) str_split_aux_nonempty [of sep "[]" rest]
      by (simp add: rest_def)
    show ?thesis
    proof (cases "contains rest sep")
      case True
      then obtain pre where "rest = pre @ sep @ last (str_split_aux sep [] rest)"
        using "2.IH"(1) "2.prems"(1) \<open>startswith (c # cs) sep\<close> unfolding rest_def by blast
      then have "c # cs = (sep @ pre) @ sep @ last (str_split_aux sep [] rest)"
        using s by simp
      then show ?thesis unfolding l by blast
    next
      case False
      then have "last (str_split_aux sep [] rest) = rest"
        by (simp add: str_split_aux_no_sep)
      then have "c # cs = [] @ sep @ last (str_split_aux sep [] rest)"
        using s by simp
      then show ?thesis unfolding l by blast
    qed
  next
    case False
    then have c: "contains cs sep" using "2.prems"(2) by simp
    have l: "last (str_split_aux sep cur (c # cs)) = last (str_split_aux sep (cur @ [c]) cs)"
      using False by simp
    obtain pre where "cs = pre @ sep @ last (str_split_aux sep (cur @ [c]) cs)"
      using "2.IH"(2) False "2.prems"(1) c by blast
    then have "c # cs = (c # pre) @ sep @ last (str_split_aux sep (cur @ [c]) cs)"
      by simp
    then show ?thesis unfolding l by blast
  qed
qed

section \<open>The samples, evaluated\<close>

lemma sample_url: "getenv_or (sample_outside first page r) ''URL'' DEFAULT_URL = DEFAULT_URL"
  by (simp add: getenv_or_def sample_outside_def sample_environ_def)

lemma sample_get: "requests_get (sample_outside first page r) url = Inr page"
  by (simp add: sample_outside_def)

lemma sample_environ_of: "environ (sample_outside first page r) = sample_environ first"
  by (simp add: sample_outside_def)

lemma sample_writes:
  "makedirs (sample_outside first page r) = None"
  "open_write (sample_outside first page r) name = None"
  "file_write (sample_outside first page r) name s = None"
  by (simp_all add: sample_outside_def)

lemma sample_locked:
  "environ (sample_outside_locked locked page) = sample_environ False"
  "requests_get (sample_outside_locked locked page) url = Inr page"
  "getenv_or (sample_outside_locked locked page) ''URL'' DEFAULT_URL = DEFAULT_URL"
  "makedirs (sample_outside_locked locked page) = None"
  "open_write (sample_outside_locked locked page) name
     = (if name = locked then Some denied else None)"
  "file_write (sample_outside_locked locked page) name s = None"
  by (simp_all add: sample_outside_locked_def sample_outside_def getenv_or_def
      sample_environ_def)

lemma send_telegram_locked:
  "send_telegram (sample_outside_locked locked page) message w
     = w\<lparr>net_log := net_log w @
            [(TelegramPost \<lparr>api_url = lit ''https://api.telegram.org/botT0K/sendMessage'',
                            chat_id = lit ''42'', message_text = message\<rparr>, None)]\<rparr>"
  by (simp add: send_telegram_def sample_outside_locked_def sample_outside_def
      sample_environ_def truthy_def Let_def)

lemma text_page_a1: "normalize_text sample_library page_a1 = text_a1"
  by (simp add: normalize_text_def sample_library_def sample_parser_def splitlines_def
      is_linebreak_def strip_def is_space_def text_a1_def)

lemma text_page_a1_b2: "normalize_text sample_library page_a1_b2 = text_a1_b2"
  by (simp add: normalize_text_def sample_library_def sample_parser_def splitlines_def
      is_linebreak_def strip_def is_space_def text_a1_b2_def page_a1_def page_a1_b2_def)

lemma text_page_a1_free: "normalize_text sample_library page_a1_free = text_a1_free"
  by (simp add: normalize_text_def sample_library_def sample_parser_def splitlines_def
      is_linebreak_def strip_def is_space_def text_a1_free_def page_a1_def page_a1_b2_def
      page_a1_free_def)

lemma text_page_foo: "normalize_text sample_library page_foo = text_foo"
  by (simp add: normalize_text_def sample_library_def sample_parser_def splitlines_def
      is_linebreak_def strip_def is_space_def text_foo_def page_a1_def page_a1_b2_def
      page_a1_free_def page_top_def page_foo_def)

lemma hash_text_a1: "stable_hash sample_library text_a1 = digest_a1"
  by (simp add: stable_hash_def sample_library_def sample_digest_def)

lemma hash_text_a1_b2: "stable_hash sample_library text_a1_b2 = digest_a1_b2"
  by (simp add: stable_hash_def sample_library_def sample_digest_def text_a1_def text_a1_b2_def)

lemma hash_text_a1_free: "stable_hash sample_library text_a1_free = digest_a1_free"
  by (simp add: stable_hash_def sample_library_def sample_digest_def text_a1_def
      text_a1_b2_def text_a1_free_def)

lemma hash_text_foo: "stable_hash sample_library text_foo = digest_foo"
  by (simp add: stable_hash_def sample_library_def sample_digest_def text_a1_def
      text_a1_b2_def text_a1_free_def text_foo_def)

lemma listings_page_a1: "extract_listings sample_library page_a1 base = {url_a1}"
  by (simp add: extract_listings_def sample_library_def sample_parser_def listing_step_def
      Let_def url_a1_def DETAIL_PREFIX_def strip_def is_space_def startswith_def
      str_split_def strip_chars_def rstrip_chars_def)

lemma listings_page_a1_b2: "extract_listings sample_library page_a1_b2 base = {url_a1, url_b2}"
  by (simp add: extract_listings_def sample_library_def sample_parser_def listing_step_def
      Let_def url_a1_def url_b2_def DETAIL_PREFIX_def strip_def is_space_def startswith_def
      str_split_def strip_chars_def rstrip_chars_def page_a1_def page_a1_b2_def insert_commute)

lemma listings_page_a1_free: "extract_listings sample_library page_a1_free base = {url_a1}"
  by (simp add: extract_listings_def sample_library_def sample_parser_def listing_step_def
      Let_def url_a1_def DETAIL_PREFIX_def strip_def is_space_def startswith_def
      str_split_def strip_chars_def rstrip_chars_def page_a1_def page_a1_b2_def
      page_a1_free_def)

lemma listings_page_foo: "extract_listings sample_library page_foo base = {url_foo}"
  by (simp add: extract_listings_def sample_library_def sample_parser_def listing_step_def
      Let_def url_foo_def DETAIL_PREFIX_def strip_def is_space_def startswith_def
      str_split_def strip_chars_def rstrip_chars_def page_a1_def page_a1_b2_def
      page_a1_free_def page_top_def page_foo_def)

lemma listings_page_top: "extract_listings sample_library page_top base = {url_top}"
  by (simp add: extract_listings_def sample_library_def sample_parser_def listing_step_def
      Let_def url_top_def DETAIL_PREFIX_def strip_def is_space_def startswith_def
      str_split_def strip_chars_def rstrip_chars_def page_a1_def page_a1_b2_def
      page_a1_free_def page_top_def page_foo_def)

lemma urls_distinct: "url_a1 \<noteq> url_b2" "url_b2 \<noteq> url_a1"
  by (simp_all add: url_a1_def url_b2_def)

lemma digests_distinct: "digest_a1_free \<noteq> digest_a1"
  by (simp add: digest_a1_def digest_a1_free_def)

lemma sorted_urls_a1_b2: "sorted_list_of_set {url_a1, url_b2} = [url_a1, url_b2]"
  by (simp add: url_a1_def url_b2_def)

lemma read_files_a1:
  "read_state files_a1
     = Inr (\<lparr>last_hash = Some digest_a1, last_text = Some text_a1,
             last_listings = {url_a1}\<rparr>, [])"
  by (simp add: read_state_def read_state_try_def files_a1_def path_exists_def read_file_def
      digest_a1_def text_a1_def url_a1_def strip_def is_space_def)

lemma read_files_foo:
  "read_state \<lparr>last_hash_txt = Content digest_foo, last_text_txt = Content text_foo,
               last_listings_txt = Content (url_foo @ [10])\<rparr>
     = Inr (\<lparr>last_hash = Some digest_foo, last_text = Some text_foo,
             last_listings = {lit ''https://www.psoas.fi/en/apartments/foo''}\<rparr>, [])"
  by (simp add: read_state_def read_state_try_def path_exists_def read_file_def
      digest_foo_def text_foo_def url_foo_def strip_def is_space_def)

lemma world_a1_fields: "state_files world_a1 = files_a1" "net_log world_a1 = []"
  by (simp_all add: world_a1_def)

lemma world_blank_hash_fields:
  "state_files world_blank_hash = files_blank_hash" "net_log world_blank_hash = []"
  by (simp_all add: world_blank_hash_def)

lemma send_telegram_sample:
  "send_telegram (sample_outside first page r) message w
     = w\<lparr>net_log := net_log w @
            [(TelegramPost \<lparr>api_url = lit ''https://api.telegram.org/botT0K/sendMessage'',
                            chat_id = lit ''42'', message_text = message\<rparr>, None)]\<rparr>"
  by (simp add: send_telegram_def sample_outside_def sample_environ_def truthy_def Let_def)

lemma send_email_sample:
  "send_email sample_library (sample_outside first page r) subject body w
     = (w\<lparr>net_log := net_log w @
            [(SmtpSend \<lparr>smtp_server = lit ''smtp.gmail.com'', smtp_port = 587,
                        smtp_user = lit ''me@psoas.fi'', smtp_pass = lit ''pw'',
                        email_from = lit ''me@psoas.fi'',
                        email_to = lit ''litecointele@gmail.com'',
                        mail_subject = subject, mail_body = body\<rparr>, r)]\<rparr>,
        case r of None \<Rightarrow> Inr () | Some e \<Rightarrow> Inl e)"
  by (cases r)
     (simp_all add: send_email_def sample_library_def sample_outside_def sample_environ_def
      sample_int_def getenv_or_def truthy_def Let_def)

section \<open>The listing extractor\<close>

lemma finite_fold_listing_step:
  "finite acc \<Longrightarrow> finite (fold (listing_step L base) hrefs acc)"
  by (induction hrefs arbitrary: acc) (simp_all add: listing_step_def Let_def)

lemma finite_extract_listings: "finite (extract_listings L html base)"
  by (simp add: extract_listings_def finite_fold_listing_step)

lemma listing_step_member:
  assumes "u \<in> listing_step L base a links" and "u \<notin> links"
  shows "63 \<notin> set u \<and> u \<noteq> [] \<and> last u \<noteq> 47
       \<and> (\<exists>pre t. u = pre @ DETAIL_PREFIX @ t \<and> t \<noteq> [] \<and> last t \<noteq> 47)"
proof -
  define abs_url where "abs_url = urljoin L base (strip a)"
  define tail where "tail = last (str_split DETAIL_PREFIX abs_url)"
  have in_step: "contains abs_url DETAIL_PREFIX" "63 \<notin> set abs_url"
      "strip_chars [47] tail \<noteq> []" "u = rstrip_chars [47] abs_url"
    using assms
    by (auto simp: listing_step_def Let_def abs_url_def tail_def split: if_splits)
  have "DETAIL_PREFIX \<noteq> []" by (simp add: DETAIL_PREFIX_def)
  then obtain pre where pre: "abs_url = pre @ DETAIL_PREFIX @ tail"
    using last_str_split_aux [OF _ in_step(1), of "[]"] by (auto simp: tail_def str_split_def)
  have t: "rstrip_chars [47] tail \<noteq> []"
    using in_step(3) by (rule strip_chars_nonempty)
  have "rstrip_chars [47] ((pre @ DETAIL_PREFIX) @ tail)
      = (pre @ DETAIL_PREFIX) @ rstrip_chars [47] tail"
    using t by (rule rstrip_chars_keeps)
  then have u: "u = pre @ DETAIL_PREFIX @ rstrip_chars [47] tail"
    by (simp add: in_step(4) pre)
  have lt: "last (rstrip_chars [47] tail) \<noteq> 47"
    using rstrip_chars_last [OF t] by simp
  have "63 \<notin> set u"
    using in_step(2) set_rstrip_chars [of "[47]" abs_url] by (auto simp: in_step(4))
  moreover have "u \<noteq> []" using u t by simp
  moreover have "last u \<noteq> 47" using u t lt by simp
  ultimately show ?thesis using u t lt by blast
qed

lemma fold_listing_step_member:
  assumes "u \<in> fold (listing_step L base) hrefs links" and "u \<notin> links"
  shows "63 \<notin> set u \<and> u \<noteq> [] \<and> last u \<noteq> 47
       \<and> (\<exists>pre t. u = pre @ DETAIL_PREFIX @ t \<and> t \<noteq> [] \<and> last t \<noteq> 47)"
  using assms
proof (induction hrefs arbitrary: links)
  case Nil
  then show ?case by simp
next
  case (Cons a hrefs)
  show ?case
  proof (cases "u \<in> listing_step L base a links")
    case True
    then show ?thesis using Cons.prems(2) by (rule listing_step_member)
  next
    case False
    then show ?thesis using Cons.IH [of "listing_step L base a links"] Cons.prems(1) by simp
  qed
qed

text \<open>
  What holds of every URL of the output, for every page and base URL: it has no \<open>?\<close>,
  it does not end in a slash, and it is some text, the prefix, and a text that is not
  empty and does not end in a slash. The text after the prefix need not belong to the
  path of the URL.
\<close>

lemma extract_listings_shape:
  assumes "u \<in> extract_listings L html base"
  shows "63 \<notin> set u \<and> u \<noteq> [] \<and> last u \<noteq> 47
       \<and> (\<exists>pre t. u = pre @ DETAIL_PREFIX @ t \<and> t \<noteq> [] \<and> last t \<noteq> 47)"
  using assms fold_listing_step_member [of u L base _ "{}"]
  by (simp add: extract_listings_def)

text \<open>
  Claim C7 at a failing input. The page has one anchor, to the fragment \<open>#top\<close> of the
  bare prefix URL. The text after the prefix, \<open>#top\<close>, is not empty once its slashes are
  stripped, so the URL is kept as a listing, though its path ends with the prefix and
  has no segment beyond it.
\<close>

theorem fragment_link_is_listed:
  "extract_listings sample_library page_top DEFAULT_URL
     = {lit ''https://www.psoas.fi/en/apartments/'' @ lit ''#top''}"
  by (simp add: listings_page_top url_top_def)

section \<open>The differ\<close>

text \<open>
  Claim C8. For every pair of texts and every maximum \<open>n\<close>, the lines of the output are
  lines of the unified diff of the two texts, joined by \<open>\n\<close>: when the diff has more
  than \<open>n\<close> lines, the output is its first \<open>n\<close> lines followed by the truncation
  marker, \<open>n + 1\<close> lines in all; otherwise the output is the diff itself with nothing
  added. The maximum the program passes is 2000.
\<close>

theorem make_diff_truncates:
  "(n < length (unified_diff L (splitlines old) (splitlines new)) \<longrightarrow>
      make_diff_lines L old new (int n)
        = take n (unified_diff L (splitlines old) (splitlines new)) @ [diff_marker]
      \<and> length (make_diff_lines L old new (int n)) = n + 1) \<and>
   (length (unified_diff L (splitlines old) (splitlines new)) \<le> n \<longrightarrow>
      make_diff_lines L old new (int n) = unified_diff L (splitlines old) (splitlines new)) \<and>
   make_diff L old new (int n) = join [10] (make_diff_lines L old new (int n))"
  by (simp add: make_diff_def make_diff_lines_def slice_to_def Let_def)

theorem make_diff_truncates_witness:
  "2 < length (unified_diff sample_library (splitlines text_a1) (splitlines text_a1_free))
   \<and> make_diff_lines sample_library text_a1 text_a1_free (int 2)
       = [lit ''--- previous'', lit ''+++ current'', diff_marker]
   \<and> make_diff sample_library text_a1 text_a1_free (int 2)
       = lit ''--- previous'' @ [10] @ lit ''+++ current'' @ [10] @ diff_marker
   \<and> length (unified_diff sample_library (splitlines text_a1) (splitlines text_a1_free)) \<le> 2000
   \<and> make_diff_lines sample_library text_a1 text_a1_free (int 2000) = diff_a1_free"
  using make_diff_truncates [of 2 sample_library text_a1 text_a1_free]
        make_diff_truncates [of 2000 sample_library text_a1 text_a1_free]
  by (simp add: sample_library_def sample_diff_def splitlines_def is_linebreak_def
      text_a1_def text_a1_free_def diff_a1_free_def)

section \<open>The normalizer applied twice\<close>

lemma normalized_lines_fixed:
  assumes "ls = filter (\<lambda>ln. ln \<noteq> []) (map strip (splitlines x))"
  shows "filter (\<lambda>ln. ln \<noteq> []) (map strip (splitlines (join [10] ls))) = ls"
proof -
  have clean: "\<forall>l\<in>set ls. l \<noteq> [] \<and> (\<forall>c\<in>set l. \<not> is_linebreak c)"
  proof
    fix l assume "l \<in> set ls"
    then obtain m where m: "m \<in> set (splitlines x)" "l = strip m" "l \<noteq> []"
      using assms by auto
    have "\<forall>c\<in>set m. \<not> is_linebreak c" using m(1) by (rule splitlines_no_linebreak)
    then have "\<forall>c\<in>set l. \<not> is_linebreak c" using set_strip [of m] m(2) by blast
    then show "l \<noteq> [] \<and> (\<forall>c\<in>set l. \<not> is_linebreak c)" using m(3) by simp
  qed
  have stripped: "\<forall>l\<in>set ls. strip l = l"
    using assms strip_strip by auto
  have "splitlines (join [10] ls) = ls" using clean by (rule splitlines_join)
  moreover have "map strip ls = ls" using stripped by (simp add: map_idI)
  moreover have "filter (\<lambda>ln. ln \<noteq> []) ls = ls" using clean by simp
  ultimately show ?thesis by simp
qed

text \<open>
  Claim C9, as stated, fails: the normalizer reads its input as HTML, and its own output
  is text. The page \<open>&amp;amp;\<close> has the text \<open>&amp;\<close>, and that text, read as a
  page, has the text \<open>&\<close>.
\<close>

theorem normalize_text_not_idempotent:
  "normalize_text sample_library (normalize_text sample_library (lit ''&amp;amp;''))
     \<noteq> normalize_text sample_library (lit ''&amp;amp;'')"
  by (simp add: normalize_text_def sample_library_def sample_parser_def splitlines_def
      is_linebreak_def strip_def is_space_def page_a1_def page_a1_b2_def page_a1_free_def
      page_top_def page_foo_def)

text \<open>
  Claim C9, amended. For every HTML input whose normalized text the parser reads back
  as it is (the text extracted from it, read as a page, is the text itself), applying
  the normalizer to the normalized text returns it unchanged.
\<close>

theorem normalize_text_idempotent_on_plain_text:
  assumes "get_text L (decompose_tags L [lit ''script'', lit ''style'', lit ''noscript'']
             (html_parser L (normalize_text L html))) = normalize_text L html"
  shows "normalize_text L (normalize_text L html) = normalize_text L html"
proof -
  define x where "x = get_text L (decompose_tags L [lit ''script'', lit ''style'', lit ''noscript'']
             (html_parser L html))"
  define ls where "ls = filter (\<lambda>ln. ln \<noteq> []) (map strip (splitlines x))"
  have n: "normalize_text L html = join [10] ls"
    by (simp add: normalize_text_def Let_def x_def ls_def)
  have "normalize_text L (normalize_text L html)
      = join [10] (filter (\<lambda>ln. ln \<noteq> []) (map strip (splitlines (normalize_text L html))))"
    using assms by (simp add: normalize_text_def [of L "normalize_text L html"] Let_def)
  also have "\<dots> = join [10] ls"
    unfolding n using normalized_lines_fixed [OF ls_def] by simp
  finally show ?thesis by (simp add: n)
qed

theorem normalize_text_idempotent_on_plain_text_witness:
  "get_text sample_library (decompose_tags sample_library
       [lit ''script'', lit ''style'', lit ''noscript'']
       (html_parser sample_library (normalize_text sample_library page_a1_b2)))
     = normalize_text sample_library page_a1_b2
   \<and> normalize_text sample_library page_a1_b2 = text_a1_b2
   \<and> normalize_text sample_library (normalize_text sample_library page_a1_b2) = text_a1_b2"
proof -
  have t: "normalize_text sample_library page_a1_b2 = text_a1_b2"
    by (simp add: normalize_text_def sample_library_def sample_parser_def splitlines_def
      is_linebreak_def strip_def is_space_def text_a1_b2_def page_a1_def page_a1_b2_def)
  have h: "get_text sample_library (decompose_tags sample_library
       [lit ''script'', lit ''style'', lit ''noscript'']
       (html_parser sample_library (normalize_text sample_library page_a1_b2)))
     = normalize_text sample_library page_a1_b2"
    unfolding t
    by (simp add: sample_library_def sample_parser_def text_a1_b2_def page_a1_def
        page_a1_b2_def page_a1_free_def page_top_def page_foo_def)
  from normalize_text_idempotent_on_plain_text [OF h] h t show ?thesis by simp
qed

section \<open>Reading and writing the state\<close>


text \<open>
  A hash file of whitespace reads as no hash. When the directory can be made and the
  files written, \<open>write_state\<close> with a listing set writes the three files, and
  \<open>read_state\<close> gives back what was written when the hash and the URLs have no
  whitespace at their ends and no line end inside.
\<close>

lemma read_state_blank_hash:
  assumes "last_hash_txt d = Content c" and "strip (universal_newlines c) = []"
  shows "\<exists>v out. read_state d = Inr (v, out) \<and> last_hash v = None"
  using assms
  by (cases "last_text_txt d"; cases "last_listings_txt d")
     (simp_all add: read_state_def read_state_try_def read_file_def path_exists_def)

lemma write_state_ok:
  assumes "makedirs W = None"
    and "\<And>name. open_write W name = None"
    and "\<And>name s. file_write W name s = None"
  shows "write_state W d h text (Some ls)
     = (\<lparr>last_hash_txt = Content h, last_text_txt = Content text,
         last_listings_txt = Content (concat (map (\<lambda>url. url @ [10]) (sorted_list_of_set ls)))\<rparr>,
        None)"
  by (cases d) (simp add: write_state_def write_file_def assms)

lemma read_written_state:
  assumes "strip (universal_newlines h) = h" and "h \<noteq> []" and "finite ls"
    and "\<forall>u\<in>ls. u \<noteq> [] \<and> \<not> is_space (hd u) \<and> \<not> is_space (last u)
           \<and> 10 \<notin> set u \<and> 13 \<notin> set u"
  shows "read_state \<lparr>last_hash_txt = Content h, last_text_txt = Content text,
           last_listings_txt =
             Content (concat (map (\<lambda>url. url @ [10]) (sorted_list_of_set ls)))\<rparr>
     = Inr (\<lparr>last_hash = Some h, last_text = Some (universal_newlines text),
             last_listings = ls\<rparr>, [])"
proof -
  define us where "us = sorted_list_of_set ls"
  have us: "set us = ls" using assms(3) by (simp add: us_def)
  have "13 \<notin> set (concat (map (\<lambda>url. url @ [10]) us))"
    using assms(4) us by auto
  then have "universal_newlines (concat (map (\<lambda>url. url @ [10]) us))
      = concat (map (\<lambda>url. url @ [10]) us)"
    by (rule universal_newlines_id)
  moreover have "file_lines (concat (map (\<lambda>url. url @ [10]) us)) = map (\<lambda>url. url @ [10]) us"
    using assms(4) us by (intro file_lines_concat) simp
  moreover have "map strip (map (\<lambda>url. url @ [10]) us) = us"
  proof -
    have "\<forall>u\<in>set us. strip (u @ [10]) = u"
      using assms(4) us strip_line by blast
    then show ?thesis by (simp add: map_idI)
  qed
  moreover have "filter (\<lambda>ln. ln \<noteq> []) us = us"
    using assms(4) us by simp
  ultimately show ?thesis
    using assms(1,2) us
    by (simp add: read_state_def read_state_try_def path_exists_def read_file_def
        us_def [symmetric])
qed

section \<open>What the notifier changes\<close>

lemma debug_print_fields [simp]:
  "state_files (debug_print debug m w) = state_files w"
  "net_log (debug_print debug m w) = net_log w"
  by (simp_all add: debug_print_def print_line_def)

lemma print_line_fields [simp]:
  "state_files (print_line l w) = state_files w"
  "net_log (print_line l w) = net_log w"
  by (simp_all add: print_line_def)

lemma send_telegram_files [simp]: "state_files (send_telegram W m w) = state_files w"
  by (simp add: send_telegram_def Let_def split: option.splits)

lemma send_telegram_log:
  "\<exists>xs. net_log (send_telegram W m w) = net_log w @ xs \<and> length xs \<le> 1
        \<and> (\<forall>x\<in>set xs. notification_text (fst x) = m)"
  by (simp add: send_telegram_def Let_def split: option.splits)

lemma send_email_files [simp]: "state_files (fst (send_email L W s b w)) = state_files w"
  by (simp add: send_email_def Let_def split: option.splits sum.splits)

lemma send_email_log:
  "\<exists>xs. net_log (fst (send_email L W s b w)) = net_log w @ xs \<and> length xs \<le> 1
        \<and> (\<forall>x\<in>set xs. notification_text (fst x) = s @ [10] @ b)"
  by (simp add: send_email_def Let_def split: option.splits sum.splits)

lemma notify_files [simp]: "state_files (fst (notify L W t s b w)) = state_files w"
  by (simp add: notify_def)

lemma notify_log:
  "\<exists>xs. net_log (fst (notify L W t s b w)) = net_log w @ xs \<and> length xs \<le> 2
        \<and> (\<forall>x\<in>set xs. notification_text (fst x) = t \<or> notification_text (fst x) = s @ [10] @ b)"
proof -
  obtain xs where xs: "net_log (send_telegram W t w) = net_log w @ xs" "length xs \<le> 1"
      "\<forall>x\<in>set xs. notification_text (fst x) = t"
    using send_telegram_log by blast
  obtain ys where ys: "net_log (fst (send_email L W s b (send_telegram W t w)))
        = net_log (send_telegram W t w) @ ys" "length ys \<le> 1"
      "\<forall>x\<in>set ys. notification_text (fst x) = s @ [10] @ b"
    using send_email_log by blast
  have "net_log (fst (notify L W t s b w)) = net_log w @ (xs @ ys)"
    by (simp add: notify_def xs ys)
  moreover have "length (xs @ ys) \<le> 2" using xs(2) ys(2) by simp
  moreover have "\<forall>x\<in>set (xs @ ys). notification_text (fst x) = t
      \<or> notification_text (fst x) = s @ [10] @ b"
    using xs(3) ys(3) by auto
  ultimately show ?thesis by blast
qed

text \<open>
  A failure of the Telegram send is caught inside \<open>send_telegram\<close>: the mail is sent
  next in any case, and the two sends raise exactly when the mail does.
\<close>

lemma send_email_result:
  "snd (send_email L W s b w) = snd (send_email L W s b w')"
  by (simp add: send_email_def Let_def split: sum.splits option.splits)

lemma notify_result: "snd (notify L W t s b w) = snd (send_email L W s b w)"
  unfolding notify_def by (rule send_email_result)

lemma notify_returns:
  assumes "\<And>w. snd (send_email L W s b w) = Inr ()"
  shows "snd (notify L W t s b w) = Inr ()"
  using assms by (simp add: notify_def)

section \<open>Which branch a run takes, and what each branch does\<close>

lemma sorted_list_of_set_nonempty:
  "finite A \<Longrightarrow> A \<noteq> {} \<Longrightarrow> sorted_list_of_set A \<noteq> []"
  using sorted_list_of_set.set_sorted_key_list_of_set [of A] by fastforce

lemma run_once_baseline:
  assumes "url = getenv_or W ''URL'' DEFAULT_URL"
    and "requests_get W url = Inr html"
    and "read_state (state_files w) = Inr (v, out)"
    and "last_hash v = None"
  shows "run_once L W debug w
      = run_baseline L W debug url (env_bool W ''NOTIFY_ON_FIRST_RUN'' False)
          (stable_hash L (normalize_text L html)) (normalize_text L html)
          (extract_listings L html url)
          ((debug_print debug (lit ''[INFO] Fetching: '' @ url) w)
             \<lparr>console := console (debug_print debug (lit ''[INFO] Fetching: '' @ url) w) @ out\<rparr>)"
  using assms by (simp add: run_once_def Let_def)

lemma run_once_new_listings:
  assumes "url = getenv_or W ''URL'' DEFAULT_URL"
    and "requests_get W url = Inr html"
    and "read_state (state_files w) = Inr (v, out)"
    and "last_hash v = Some prev_hash"
    and "extract_listings L html url - last_listings v \<noteq> {}"
  shows "run_once L W debug w
      = run_new_listings L W debug url
          (sorted_list_of_set (extract_listings L html url - last_listings v))
          (stable_hash L (normalize_text L html)) (normalize_text L html)
          (extract_listings L html url)
          ((debug_print debug (lit ''[INFO] Fetching: '' @ url) w)
             \<lparr>console := console (debug_print debug (lit ''[INFO] Fetching: '' @ url) w) @ out\<rparr>)"
proof -
  have "sorted_list_of_set (extract_listings L html url - last_listings v) \<noteq> []"
    using assms(5) finite_extract_listings [of L html url]
    by (intro sorted_list_of_set_nonempty) simp_all
  then show ?thesis
    using assms(1-4) by (simp add: run_once_def Let_def)
qed

lemma run_once_page_changed:
  assumes "url = getenv_or W ''URL'' DEFAULT_URL"
    and "requests_get W url = Inr html"
    and "read_state (state_files w) = Inr (v, out)"
    and "last_hash v = Some prev_hash"
    and "extract_listings L html url - last_listings v = {}"
    and "stable_hash L (normalize_text L html) \<noteq> prev_hash"
  shows "run_once L W debug w
      = run_page_changed L W debug url prev_hash (last_text v)
          (stable_hash L (normalize_text L html)) (normalize_text L html)
          (extract_listings L html url)
          ((debug_print debug (lit ''[INFO] Fetching: '' @ url) w)
             \<lparr>console := console (debug_print debug (lit ''[INFO] Fetching: '' @ url) w) @ out\<rparr>)"
proof -
  have "extract_listings L html (getenv_or W ''URL'' DEFAULT_URL) - last_listings v = {}"
    using assms(1,5) by blast
  then have "sorted_list_of_set (extract_listings L html (getenv_or W ''URL'' DEFAULT_URL)
      - last_listings v) = []"
    by (simp only: sorted_list_of_set.sorted_key_list_of_set_empty)
  then show ?thesis
    using assms(1-4,6) by (simp add: run_once_def Let_def)
qed

lemma run_once_no_change:
  assumes "url = getenv_or W ''URL'' DEFAULT_URL"
    and "requests_get W url = Inr html"
    and "read_state (state_files w) = Inr (v, out)"
    and "last_hash v = Some prev_hash"
    and "extract_listings L html url - last_listings v = {}"
    and "stable_hash L (normalize_text L html) = prev_hash"
  shows "run_once L W debug w
      = (debug_print debug (lit ''[INFO] No change detected.'')
          ((debug_print debug (lit ''[INFO] Fetching: '' @ url) w)
             \<lparr>console := console (debug_print debug (lit ''[INFO] Fetching: '' @ url) w) @ out\<rparr>),
         Inr 0)"
proof -
  have "extract_listings L html (getenv_or W ''URL'' DEFAULT_URL) - last_listings v = {}"
    using assms(1,5) by blast
  then have "sorted_list_of_set (extract_listings L html (getenv_or W ''URL'' DEFAULT_URL)
               - last_listings v) = []"
    by (simp only: sorted_list_of_set.sorted_key_list_of_set_empty)
  then show ?thesis
    using assms(1-4,6) by (simp add: run_once_def Let_def debug_print_def print_line_def)
qed

lemma run_baseline_files:
  "state_files (fst (run_baseline L W debug url nf h text listings w))
     = fst (write_state W (state_files w) h text (Some listings))"
proof -
  obtain d r where ws: "write_state W (state_files w) h text (Some listings) = (d, r)"
    by (cases "write_state W (state_files w) h text (Some listings)")
  show ?thesis
  proof (cases r)
    case (Some e)
    then show ?thesis by (simp add: run_baseline_def ws)
  next
    case None
    show ?thesis
    proof (cases nf)
      case False
      then show ?thesis using None by (simp add: run_baseline_def ws)
    next
      case True
      define w1 where "w1 = w\<lparr>state_files := d\<rparr>"
      define body where "body = lit ''Time: '' @ utc_now W @ [10] @ lit ''URL: '' @ url @ [10, 10]
                   @ lit ''Baseline content saved. Notifications will be sent on changes.''"
      obtain w2 r2 where n:
          "notify L W (baseline_subject @ [10] @ body) baseline_subject body w1 = (w2, r2)"
        by (cases "notify L W (baseline_subject @ [10] @ body) baseline_subject body w1")
      have "state_files (fst (notify L W (baseline_subject @ [10] @ body) baseline_subject body w1))
          = state_files w1"
        by (rule notify_files)
      then have "state_files w2 = d"
        unfolding n by (simp add: w1_def)
      then show ?thesis
        using True None n
        by (cases r2) (simp_all add: run_baseline_def ws Let_def w1_def body_def)
    qed
  qed
qed

lemma run_baseline_log:
  "\<exists>xs. net_log (fst (run_baseline L W debug url nf h text listings w)) = net_log w @ xs
        \<and> (\<forall>x\<in>set xs. startswith (notification_text (fst x)) baseline_subject)
        \<and> (\<not> nf \<longrightarrow> xs = [])"
proof -
  obtain d r where ws: "write_state W (state_files w) h text (Some listings) = (d, r)"
    by (cases "write_state W (state_files w) h text (Some listings)")
  show ?thesis
  proof (cases r)
    case (Some e)
    then show ?thesis by (simp add: run_baseline_def ws)
  next
    case None
    show ?thesis
    proof (cases nf)
      case False
      then show ?thesis using None by (simp add: run_baseline_def ws)
    next
      case True
      define w1 where "w1 = w\<lparr>state_files := d\<rparr>"
      define body where "body = lit ''Time: '' @ utc_now W @ [10] @ lit ''URL: '' @ url @ [10, 10]
                   @ lit ''Baseline content saved. Notifications will be sent on changes.''"
      obtain w2 r2 where n:
          "notify L W (baseline_subject @ [10] @ body) baseline_subject body w1 = (w2, r2)"
        by (cases "notify L W (baseline_subject @ [10] @ body) baseline_subject body w1")
      obtain xs where xs: "net_log w2 = net_log w1 @ xs"
          "\<forall>x\<in>set xs. notification_text (fst x) = baseline_subject @ [10] @ body"
        using notify_log [of L W "baseline_subject @ [10] @ body" baseline_subject body w1] n
        by auto
      have "net_log (fst (run_baseline L W debug url nf h text listings w)) = net_log w @ xs"
        using True None n xs(1)
        by (cases r2) (simp_all add: run_baseline_def ws Let_def w1_def body_def)
      moreover have "\<forall>x\<in>set xs. startswith (notification_text (fst x)) baseline_subject"
        using xs(2) by simp
      ultimately show ?thesis using True by blast
    qed
  qed
qed

lemma run_baseline_returns:
  assumes "\<And>s b w. snd (send_email L W s b w) = Inr ()"
    and "makedirs W = None"
    and "\<And>name. open_write W name = None"
    and "\<And>name s. file_write W name s = None"
  shows "snd (run_baseline L W debug url nf h text listings w) = Inr 0"
proof (cases nf)
  case False
  then show ?thesis by (simp add: run_baseline_def write_state_ok [OF assms(2-4)])
next
  case True
  define w1 where "w1 = w\<lparr>state_files :=
      fst (write_state W (state_files w) h text (Some listings))\<rparr>"
  define body where "body = lit ''Time: '' @ utc_now W @ [10] @ lit ''URL: '' @ url @ [10, 10]
                   @ lit ''Baseline content saved. Notifications will be sent on changes.''"
  obtain w2 r where n: "notify L W (baseline_subject @ [10] @ body) baseline_subject body w1 = (w2, r)"
    by (cases "notify L W (baseline_subject @ [10] @ body) baseline_subject body w1")
  have "snd (notify L W (baseline_subject @ [10] @ body) baseline_subject body w1) = Inr ()"
    using assms(1) by (rule notify_returns)
  then have "r = Inr ()" unfolding n by simp
  then show ?thesis
    using True n
    by (simp add: run_baseline_def write_state_ok [OF assms(2-4)] Let_def w1_def body_def)
qed

lemma run_new_listings_completes:
  assumes "\<And>s b w. snd (send_email L W s b w) = Inr ()"
    and "makedirs W = None"
    and "\<And>name. open_write W name = None"
    and "\<And>name s. file_write W name s = None"
  shows "run_new_listings L W debug url new h text listings w
     = ((fst (notify L W (new_listings_message W url new) new_listings_subject
               (new_listings_message W url new)
               (debug_print debug (lit ''[INFO] New listings detected, sending Telegram/email...'') w)))
          \<lparr>state_files :=
             \<lparr>last_hash_txt = Content h, last_text_txt = Content text,
              last_listings_txt = Content (concat (map (\<lambda>url. url @ [10])
                (sorted_list_of_set listings)))\<rparr>\<rparr>, Inr 0)"
proof -
  define w1 where "w1 = debug_print debug (lit ''[INFO] New listings detected, sending Telegram/email...'') w"
  obtain w2 r where n: "notify L W (new_listings_message W url new) new_listings_subject
               (new_listings_message W url new) w1 = (w2, r)"
    by (cases "notify L W (new_listings_message W url new) new_listings_subject
               (new_listings_message W url new) w1")
  have "snd (notify L W (new_listings_message W url new) new_listings_subject
               (new_listings_message W url new) w1) = Inr ()"
    using assms(1) by (rule notify_returns)
  then have r: "r = Inr ()" unfolding n by simp
  show ?thesis
    unfolding run_new_listings_def Let_def w1_def [symmetric] n using r
    by (simp add: write_state_ok [OF assms(2-4)])
qed

lemma run_page_changed_completes:
  assumes "\<And>s b w. snd (send_email L W s b w) = Inr ()"
    and "makedirs W = None"
    and "\<And>name. open_write W name = None"
    and "\<And>name s. file_write W name s = None"
  shows "run_page_changed L W debug url prev_hash prev_text h text listings w
     = ((fst (notify L W (changed_subject W @ [10] @ changed_body L url prev_hash prev_text h text)
               (changed_subject W) (changed_body L url prev_hash prev_text h text)
               (debug_print debug (lit ''[INFO] Change detected, sending email...'') w)))
          \<lparr>state_files :=
             \<lparr>last_hash_txt = Content h, last_text_txt = Content text,
              last_listings_txt = Content (concat (map (\<lambda>url. url @ [10])
                (sorted_list_of_set listings)))\<rparr>\<rparr>, Inr 0)"
proof -
  define w1 where "w1 = debug_print debug (lit ''[INFO] Change detected, sending email...'') w"
  define b where "b = changed_body L url prev_hash prev_text h text"
  obtain w2 r where n: "notify L W (changed_subject W @ [10] @ b) (changed_subject W) b w1 = (w2, r)"
    by (cases "notify L W (changed_subject W @ [10] @ b) (changed_subject W) b w1")
  have "snd (notify L W (changed_subject W @ [10] @ b) (changed_subject W) b w1) = Inr ()"
    using assms(1) by (rule notify_returns)
  then have r: "r = Inr ()" unfolding n by simp
  show ?thesis
    unfolding run_page_changed_def Let_def w1_def [symmetric] b_def [symmetric] n
    using r by (simp add: write_state_ok [OF assms(2-4)])
qed

text \<open>
  A run that reads no hash: it calls \<open>write_state\<close> with the current snapshot first, and
  whatever it sends is a baseline notification.
\<close>

lemma baseline_run_effects:
  assumes "url = getenv_or W ''URL'' DEFAULT_URL"
    and "requests_get W url = Inr html"
    and "read_state (state_files w) = Inr (v, out)"
    and "last_hash v = None"
    and "w' = fst (run_once L W debug w)"
  shows "state_files w'
           = fst (write_state W (state_files w) (stable_hash L (normalize_text L html))
                    (normalize_text L html) (Some (extract_listings L html url)))
       \<and> (\<forall>x\<in>set (sent_since w w'). startswith (notification_text (fst x)) baseline_subject)
       \<and> (\<not> env_bool W ''NOTIFY_ON_FIRST_RUN'' False \<longrightarrow> sent_since w w' = [])"
proof -
  define w2 where "w2 = (debug_print debug (lit ''[INFO] Fetching: '' @ url) w)
      \<lparr>console := console (debug_print debug (lit ''[INFO] Fetching: '' @ url) w) @ out\<rparr>"
  have w2: "state_files w2 = state_files w" "net_log w2 = net_log w"
    by (simp_all add: w2_def)
  define h where "h = stable_hash L (normalize_text L html)"
  define ls where "ls = extract_listings L html url"
  have run: "run_once L W debug w
      = run_baseline L W debug url (env_bool W ''NOTIFY_ON_FIRST_RUN'' False) h
          (normalize_text L html) ls w2"
    unfolding run_once_baseline [OF assms(1-4)] by (simp add: w2_def h_def ls_def)
  have files: "state_files w'
      = fst (write_state W (state_files w) h (normalize_text L html) (Some ls))"
    by (simp add: assms(5) run run_baseline_files w2)
  obtain xs where xs: "net_log w' = net_log w @ xs"
      "\<forall>x\<in>set xs. startswith (notification_text (fst x)) baseline_subject"
      "\<not> env_bool W ''NOTIFY_ON_FIRST_RUN'' False \<longrightarrow> xs = []"
    using run_baseline_log [of L W debug url "env_bool W ''NOTIFY_ON_FIRST_RUN'' False"
        h "normalize_text L html" ls w2]
    unfolding assms(5) run w2 by blast
  have "sent_since w w' = xs"
    by (simp add: sent_since_def xs(1))
  with files xs(2,3) show ?thesis
    by (simp add: h_def ls_def)
qed



section \<open>A state that cannot be read\<close>




section \<open>A run that finds no change\<close>

text \<open>
  Claim C5. When the page is fetched, the state read has a hash, no current listing is
  missing from the stored listings and the current hash equals the stored one, the run
  exits with 0, leaves the three state files as they were and makes no network send.
\<close>

theorem no_change_run_is_noop:
  assumes "url = getenv_or W ''URL'' DEFAULT_URL"
    and "requests_get W url = Inr html"
    and "read_state (state_files w) = Inr (v, out)"
    and "last_hash v = Some prev_hash"
    and "extract_listings L html url - last_listings v = {}"
    and "stable_hash L (normalize_text L html) = prev_hash"
  shows "snd (main L W debug w) = 0
       \<and> state_files (fst (main L W debug w)) = state_files w
       \<and> net_log (fst (main L W debug w)) = net_log w"
  by (simp add: main_def run_once_no_change [OF assms])

theorem no_change_run_is_noop_witness:
  "snd (main sample_library (sample_outside False page_a1 None) False world_a1) = 0
   \<and> state_files (fst (main sample_library (sample_outside False page_a1 None) False world_a1))
       = files_a1
   \<and> net_log (fst (main sample_library (sample_outside False page_a1 None) False world_a1)) = []"
proof -
  have r: "read_state (state_files world_a1)
     = Inr (\<lparr>last_hash = Some digest_a1, last_text = Some text_a1,
             last_listings = {url_a1}\<rparr>, [])"
    by (simp only: world_a1_fields read_files_a1)
  from no_change_run_is_noop [where L = sample_library and debug = False
      and W = "sample_outside False page_a1 None" and html = page_a1 and w = world_a1
      and prev_hash = digest_a1, OF sample_url [symmetric] sample_get r]
  show ?thesis
    by (simp add: world_a1_fields listings_page_a1 text_page_a1 hash_text_a1)
qed

section \<open>A blank hash file\<close>

text \<open>
  Claim C10, as stated, fails in one part: not all state is overwritten when a state
  file cannot be written. Here the hash file is blank and the text file, still on disk,
  cannot be opened for writing: the run reads no hash and takes the baseline branch,
  \<open>write_state\<close> replaces the hash file and raises on the text file, the process exits
  with 1, and the text and listing files are those of before.
\<close>

theorem blank_hash_file_state_not_overwritten:
  "last_hash_txt files_blank_hash = Content (lit ''  '' @ [10])
   \<and> snd (main sample_library (sample_outside_locked ''last_text.txt'' page_a1_b2) False
            world_blank_hash) = 1
   \<and> state_files (fst (main sample_library (sample_outside_locked ''last_text.txt'' page_a1_b2)
                          False world_blank_hash))
       = \<lparr>last_hash_txt = Content digest_a1_b2, last_text_txt = Content text_a1,
          last_listings_txt = Content (url_a1 @ [10])\<rparr>"
  by (simp add: main_def run_once_def sample_locked send_telegram_locked text_page_a1_b2
      hash_text_a1_b2 listings_page_a1_b2 world_blank_hash_def files_blank_hash_def
      files_a1_def read_state_def read_state_try_def path_exists_def read_file_def
      run_baseline_def write_state_def write_file_def env_bool_def sample_environ_def
      debug_print_def print_line_def strip_def is_space_def url_a1_def text_a1_def
      Let_def)

text \<open>
  Claim C10, amended. When the hash file exists and holds nothing but whitespace,
  \<open>read_state\<close> returns no hash, whatever the text and listing files hold. The run then
  takes the baseline branch: it calls \<open>write_state\<close> with the current hash, text and
  listings first, which overwrites the three state files when they can be written, and
  every network send the run makes is a baseline notification (the text starts with the
  baseline subject); without the toggle for the first run it makes none.
\<close>

theorem blank_hash_file_is_baseline:
  assumes "url = getenv_or W ''URL'' DEFAULT_URL"
    and "requests_get W url = Inr html"
    and "last_hash_txt (state_files w) = Content c"
    and "strip (universal_newlines c) = []"
    and "text = normalize_text L html"
    and "h = stable_hash L text"
    and "listings = extract_listings L html url"
    and "w' = fst (run_once L W debug w)"
  shows "(\<exists>v out. read_state (state_files w) = Inr (v, out) \<and> last_hash v = None)
       \<and> state_files w' = fst (write_state W (state_files w) h text (Some listings))
       \<and> (makedirs W = None \<and> (\<forall>name. open_write W name = None)
            \<and> (\<forall>name s. file_write W name s = None)
          \<longrightarrow> state_files w'
               = \<lparr>last_hash_txt = Content h, last_text_txt = Content text,
                  last_listings_txt =
                    Content (concat (map (\<lambda>url. url @ [10]) (sorted_list_of_set listings)))\<rparr>)
       \<and> (\<forall>x\<in>set (sent_since w w'). startswith (notification_text (fst x)) baseline_subject)
       \<and> (\<not> env_bool W ''NOTIFY_ON_FIRST_RUN'' False \<longrightarrow> sent_since w w' = [])"
proof -
  obtain v out where v: "read_state (state_files w) = Inr (v, out)" "last_hash v = None"
    using read_state_blank_hash [OF assms(3,4)] by blast
  have eff: "state_files w' = fst (write_state W (state_files w) h text (Some listings))"
      "\<forall>x\<in>set (sent_since w w'). startswith (notification_text (fst x)) baseline_subject"
      "\<not> env_bool W ''NOTIFY_ON_FIRST_RUN'' False \<longrightarrow> sent_since w w' = []"
    using baseline_run_effects [OF assms(1,2) v assms(8)]
    by (simp_all add: assms(5,6,7))
  have "state_files w'
          = \<lparr>last_hash_txt = Content h, last_text_txt = Content text,
             last_listings_txt =
               Content (concat (map (\<lambda>url. url @ [10]) (sorted_list_of_set listings)))\<rparr>"
    if "makedirs W = None" and "\<forall>name. open_write W name = None"
      and "\<forall>name s. file_write W name s = None"
    using that by (simp add: eff(1) write_state_ok)
  with v eff show ?thesis by blast
qed

theorem blank_hash_file_is_baseline_witness:
  "last_hash_txt files_blank_hash = Content (lit ''  '' @ [10])
   \<and> last_text_txt files_blank_hash = Content text_a1
   \<and> last_listings_txt files_blank_hash = Content (url_a1 @ [10])
   \<and> state_files (fst (run_once sample_library (sample_outside True page_a1_b2 None) False
                          world_blank_hash))
       = \<lparr>last_hash_txt = Content digest_a1_b2, last_text_txt = Content text_a1_b2,
          last_listings_txt = Content (url_a1 @ [10] @ url_b2 @ [10])\<rparr>
   \<and> list_all (\<lambda>x. startswith (notification_text (fst x)) baseline_subject)
         (sent_since world_blank_hash
            (fst (run_once sample_library (sample_outside True page_a1_b2 None) False
                    world_blank_hash)))"
proof -
  have f: "last_hash_txt (state_files world_blank_hash) = Content (lit ''  '' @ [10])"
    by (simp add: world_blank_hash_def files_blank_hash_def files_a1_def)
  have b: "strip (universal_newlines (lit ''  '' @ [10])) = []"
    by (simp add: strip_def is_space_def)
  from blank_hash_file_is_baseline [where L = sample_library and debug = False
      and W = "sample_outside True page_a1_b2 None" and html = page_a1_b2
      and w = world_blank_hash, OF sample_url [symmetric] sample_get f b refl refl refl refl]
  show ?thesis
    by (simp add: text_page_a1_b2 hash_text_a1_b2 listings_page_a1_b2 sorted_urls_a1_b2
        sample_writes write_state_ok [OF sample_writes] files_blank_hash_def files_a1_def
        list_all_iff)
qed

section \<open>A send failure of the mail channel\<close>

lemma run_once_new_listing_smtp_down:
  assumes "state_files w = files_a1"
  shows "run_once sample_library (sample_outside False page_a1_b2 (Some smtp_down)) False w
     = (w\<lparr>net_log := net_log w @
          [(TelegramPost \<lparr>api_url = lit ''https://api.telegram.org/botT0K/sendMessage'',
              chat_id = lit ''42'',
              message_text = new_listings_message
                (sample_outside False page_a1_b2 (Some smtp_down)) DEFAULT_URL [url_b2]\<rparr>, None),
           (SmtpSend \<lparr>smtp_server = lit ''smtp.gmail.com'', smtp_port = 587,
              smtp_user = lit ''me@psoas.fi'', smtp_pass = lit ''pw'',
              email_from = lit ''me@psoas.fi'', email_to = lit ''litecointele@gmail.com'',
              mail_subject = new_listings_subject,
              mail_body = new_listings_message
                (sample_outside False page_a1_b2 (Some smtp_down)) DEFAULT_URL [url_b2]\<rparr>,
            Some smtp_down)]\<rparr>,
        Inl smtp_down)"
proof -
  have r: "read_state (state_files w)
     = Inr (\<lparr>last_hash = Some digest_a1, last_text = Some text_a1,
             last_listings = {url_a1}\<rparr>, [])"
    by (simp only: assms read_files_a1)
  have n: "extract_listings sample_library page_a1_b2 DEFAULT_URL
      - last_listings \<lparr>last_hash = Some digest_a1, last_text = Some text_a1,
             last_listings = {url_a1}\<rparr> \<noteq> {}"
    by (simp add: listings_page_a1_b2 url_a1_def url_b2_def)
  show ?thesis
    unfolding run_once_new_listings [where L = sample_library and debug = False
      and W = "sample_outside False page_a1_b2 (Some smtp_down)" and html = page_a1_b2
      and prev_hash = digest_a1, OF sample_url [symmetric] sample_get r _ n, simplified]
    by (simp add: run_new_listings_def notify_def send_telegram_sample send_email_sample
        listings_page_a1_b2 urls_distinct debug_print_def Let_def)
qed

text \<open>
  Claim C1 at a failing input. The stored state is that of \<open>page_a1\<close>, the page
  fetched lists a second apartment, both channels are configured and the SMTP session
  raises. The exception of \<open>send_email\<close> is not caught in \<open>run_once\<close>: the process exits
  with 1 and the state files are those of before. The sends made are the Telegram
  notification (delivered), the mail (raised) and the error report of \<open>main\<close> on Telegram.
\<close>

theorem email_failure_aborts_run:
  "snd (main sample_library (sample_outside False page_a1_b2 (Some smtp_down)) False world_a1) = 1
   \<and> state_files (fst (main sample_library (sample_outside False page_a1_b2 (Some smtp_down))
                          False world_a1)) = files_a1
   \<and> map snd (net_log (fst (main sample_library (sample_outside False page_a1_b2 (Some smtp_down))
                          False world_a1))) = [None, Some smtp_down, None]"
  by (simp add: main_def run_once_new_listing_smtp_down [OF world_a1_fields(1)]
      send_telegram_sample env_bool_def sample_environ_of sample_environ_def
      world_a1_fields print_line_def Let_def)

section \<open>A run that finds new listings\<close>

text \<open>
  When \<open>send_email\<close> returns and the state files can be written, a run with a stored
  hash and a new listing exits with 0, writes the current snapshot and sends nothing but
  the new-listings notification: the message on Telegram, the subject and the message by
  mail. The hash is not compared.
\<close>

lemma new_listings_run_when_email_returns:
  assumes "url = getenv_or W ''URL'' DEFAULT_URL"
    and "requests_get W url = Inr html"
    and "read_state (state_files w) = Inr (v, out)"
    and "last_hash v = Some prev_hash"
    and "extract_listings L html url - last_listings v \<noteq> {}"
    and "\<And>s b w. snd (send_email L W s b w) = Inr ()"
    and "makedirs W = None"
    and "\<And>name. open_write W name = None"
    and "\<And>name s. file_write W name s = None"
    and "message = new_listings_message W url
           (sorted_list_of_set (extract_listings L html url - last_listings v))"
  shows "snd (main L W debug w) = 0
       \<and> state_files (fst (main L W debug w))
           = \<lparr>last_hash_txt = Content (stable_hash L (normalize_text L html)),
              last_text_txt = Content (normalize_text L html),
              last_listings_txt = Content (concat (map (\<lambda>url. url @ [10])
                (sorted_list_of_set (extract_listings L html url))))\<rparr>
       \<and> (\<forall>x\<in>set (sent_since w (fst (main L W debug w))).
             notification_text (fst x) = message
           \<or> notification_text (fst x) = new_listings_subject @ [10] @ message)"
proof -
  define w2 where "w2 = (debug_print debug (lit ''[INFO] Fetching: '' @ url) w)
      \<lparr>console := console (debug_print debug (lit ''[INFO] Fetching: '' @ url) w) @ out\<rparr>"
  define w3 where "w3 = debug_print debug
      (lit ''[INFO] New listings detected, sending Telegram/email...'') w2"
  have w3: "state_files w3 = state_files w" "net_log w3 = net_log w"
    by (simp_all add: w3_def w2_def)
  define w4 where "w4 = fst (notify L W message new_listings_subject message w3)"
  have run: "run_once L W debug w
      = (w4\<lparr>state_files :=
           \<lparr>last_hash_txt = Content (stable_hash L (normalize_text L html)),
            last_text_txt = Content (normalize_text L html),
            last_listings_txt = Content (concat (map (\<lambda>url. url @ [10])
              (sorted_list_of_set (extract_listings L html url))))\<rparr>\<rparr>, Inr 0)"
    unfolding run_once_new_listings [OF assms(1-5)] w2_def [symmetric]
    using run_new_listings_completes [OF assms(6-9)]
    by (simp add: w4_def w3_def assms(10))
  obtain xs where xs: "net_log w4 = net_log w3 @ xs"
      "\<forall>x\<in>set xs. notification_text (fst x) = message
          \<or> notification_text (fst x) = new_listings_subject @ [10] @ message"
    unfolding w4_def using notify_log [of L W message new_listings_subject message w3] by blast
  have "sent_since w (fst (main L W debug w)) = xs"
    by (simp add: main_def run sent_since_def xs(1) w3)
  then show ?thesis
    using xs(2) by (simp add: main_def run)
qed

text \<open>
  Claim C2 at a failing input, the same as for C1. The run with new listings sends the
  Telegram notification and raises in \<open>send_email\<close> before \<open>write_state\<close>: the snapshot
  is not persisted, so the next run on the same page notifies and raises again.
\<close>

theorem new_listings_not_persisted_when_email_fails:
  "snd (run_once sample_library (sample_outside False page_a1_b2 (Some smtp_down)) False world_a1)
     = Inl smtp_down
   \<and> state_files (fst (run_once sample_library (sample_outside False page_a1_b2 (Some smtp_down))
                          False world_a1)) = files_a1
   \<and> map snd (net_log (fst (run_once sample_library
                               (sample_outside False page_a1_b2 (Some smtp_down)) False
                               (fst (run_once sample_library
                                       (sample_outside False page_a1_b2 (Some smtp_down)) False
                                       world_a1)))))
       = [None, Some smtp_down, None, Some smtp_down]"
  by (simp add: run_once_new_listing_smtp_down world_a1_fields)

section \<open>A run that finds the page changed\<close>

text \<open>
  When \<open>send_email\<close> returns and the state files can be written, a run with a stored
  hash, no new listing and a different hash exits with 0, writes the current snapshot
  and sends nothing but the notification whose body holds the diff of the stored and the
  current text.
\<close>

lemma page_change_run_when_email_returns:
  assumes "url = getenv_or W ''URL'' DEFAULT_URL"
    and "requests_get W url = Inr html"
    and "read_state (state_files w) = Inr (v, out)"
    and "last_hash v = Some prev_hash"
    and "extract_listings L html url - last_listings v = {}"
    and "stable_hash L (normalize_text L html) \<noteq> prev_hash"
    and "\<And>s b w. snd (send_email L W s b w) = Inr ()"
    and "makedirs W = None"
    and "\<And>name. open_write W name = None"
    and "\<And>name s. file_write W name s = None"
    and "body = changed_body L url prev_hash (last_text v)
           (stable_hash L (normalize_text L html)) (normalize_text L html)"
  shows "snd (main L W debug w) = 0
       \<and> state_files (fst (main L W debug w))
           = \<lparr>last_hash_txt = Content (stable_hash L (normalize_text L html)),
              last_text_txt = Content (normalize_text L html),
              last_listings_txt = Content (concat (map (\<lambda>url. url @ [10])
                (sorted_list_of_set (extract_listings L html url))))\<rparr>
       \<and> (\<forall>x\<in>set (sent_since w (fst (main L W debug w))).
             notification_text (fst x) = changed_subject W @ [10] @ body)"
proof -
  define w2 where "w2 = (debug_print debug (lit ''[INFO] Fetching: '' @ url) w)
      \<lparr>console := console (debug_print debug (lit ''[INFO] Fetching: '' @ url) w) @ out\<rparr>"
  define w3 where "w3 = debug_print debug (lit ''[INFO] Change detected, sending email...'') w2"
  have w3: "state_files w3 = state_files w" "net_log w3 = net_log w"
    by (simp_all add: w3_def w2_def)
  define w4 where "w4 = fst (notify L W (changed_subject W @ [10] @ body) (changed_subject W) body w3)"
  have run: "run_once L W debug w
      = (w4\<lparr>state_files :=
           \<lparr>last_hash_txt = Content (stable_hash L (normalize_text L html)),
            last_text_txt = Content (normalize_text L html),
            last_listings_txt = Content (concat (map (\<lambda>url. url @ [10])
              (sorted_list_of_set (extract_listings L html url))))\<rparr>\<rparr>, Inr 0)"
    unfolding run_once_page_changed [OF assms(1-6)] w2_def [symmetric]
    using run_page_changed_completes [OF assms(7-10)]
    by (simp add: w4_def w3_def assms(11))
  obtain xs where xs: "net_log w4 = net_log w3 @ xs"
      "\<forall>x\<in>set xs. notification_text (fst x) = changed_subject W @ [10] @ body
          \<or> notification_text (fst x) = changed_subject W @ [10] @ body"
    unfolding w4_def
    using notify_log [of L W "changed_subject W @ [10] @ body" "changed_subject W" body w3]
    by blast
  have "sent_since w (fst (main L W debug w)) = xs"
    by (simp add: main_def run sent_since_def xs(1) w3)
  then show ?thesis
    using xs(2) by (simp add: main_def run)
qed

text \<open>
  Claim C3 at a failing input. No listing is new, the text and so the hash differ from the
  stored ones, and the SMTP session raises: the diff notification goes out on Telegram,
  the mail raises, the run raises and the state files are those of before.
\<close>

theorem page_change_not_persisted_when_email_fails:
  "snd (run_once sample_library (sample_outside False page_a1_free (Some smtp_down)) False world_a1)
     = Inl smtp_down
   \<and> state_files (fst (run_once sample_library (sample_outside False page_a1_free (Some smtp_down))
                          False world_a1)) = files_a1
   \<and> map (\<lambda>x. (notification_text (fst x), snd x))
         (net_log (fst (run_once sample_library
                          (sample_outside False page_a1_free (Some smtp_down)) False world_a1)))
       = [(changed_subject (sample_outside False page_a1_free (Some smtp_down)) @ [10]
             @ changed_body sample_library DEFAULT_URL digest_a1 (Some text_a1)
                 digest_a1_free text_a1_free, None),
          (changed_subject (sample_outside False page_a1_free (Some smtp_down)) @ [10]
             @ changed_body sample_library DEFAULT_URL digest_a1 (Some text_a1)
                 digest_a1_free text_a1_free, Some smtp_down)]"
proof -
  have r: "read_state (state_files world_a1)
     = Inr (\<lparr>last_hash = Some digest_a1, last_text = Some text_a1,
             last_listings = {url_a1}\<rparr>, [])"
    by (simp only: world_a1_fields read_files_a1)
  have n: "extract_listings sample_library page_a1_free DEFAULT_URL
      - last_listings \<lparr>last_hash = Some digest_a1, last_text = Some text_a1,
             last_listings = {url_a1}\<rparr> = {}"
    by (simp add: listings_page_a1_free)
  have h: "stable_hash sample_library (normalize_text sample_library page_a1_free) \<noteq> digest_a1"
    by (simp add: text_page_a1_free hash_text_a1_free digests_distinct)
  show ?thesis
    unfolding run_once_page_changed [where L = sample_library and debug = False
      and W = "sample_outside False page_a1_free (Some smtp_down)" and html = page_a1_free
      and prev_hash = digest_a1, OF sample_url [symmetric] sample_get r _ n h, simplified]
    by (simp add: run_page_changed_def notify_def send_telegram_sample send_email_sample
        listings_page_a1_free text_page_a1_free hash_text_a1_free debug_print_def Let_def
        world_a1_fields)
qed

section \<open>A first run and the run after it\<close>

text \<open>
  When \<open>send_email\<close> returns, the state files can be written and neither the hash nor
  a listing URL has whitespace at its ends or a line end inside, a run without a stored
  hash exits with 0, writes the snapshot and sends baseline notifications only (none
  without the toggle); a second run on the same page then exits with 0, sends nothing
  and leaves the state files as they are.
\<close>

lemma baseline_then_second_run:
  assumes "url = getenv_or W ''URL'' DEFAULT_URL"
    and "requests_get W url = Inr html"
    and "read_state (state_files w) = Inr (v, out)"
    and "last_hash v = None"
    and "\<And>s b w. snd (send_email L W s b w) = Inr ()"
    and "h = stable_hash L (normalize_text L html)"
    and "strip (universal_newlines h) = h" and "h \<noteq> []"
    and "\<forall>u\<in>extract_listings L html url.
           u \<noteq> [] \<and> \<not> is_space (hd u) \<and> \<not> is_space (last u) \<and> 10 \<notin> set u \<and> 13 \<notin> set u"
    and "w1 = fst (main L W debug w)"
    and "makedirs W = None"
    and "\<And>name. open_write W name = None"
    and "\<And>name s. file_write W name s = None"
  shows "snd (main L W debug w) = 0
       \<and> state_files w1
           = \<lparr>last_hash_txt = Content h, last_text_txt = Content (normalize_text L html),
              last_listings_txt = Content (concat (map (\<lambda>url. url @ [10])
                (sorted_list_of_set (extract_listings L html url))))\<rparr>
       \<and> (\<forall>x\<in>set (sent_since w w1). startswith (notification_text (fst x)) baseline_subject)
       \<and> (\<not> env_bool W ''NOTIFY_ON_FIRST_RUN'' False \<longrightarrow> sent_since w w1 = [])
       \<and> snd (main L W debug w1) = 0
       \<and> net_log (fst (main L W debug w1)) = net_log w1
       \<and> state_files (fst (main L W debug w1)) = state_files w1"
proof -
  define w2 where "w2 = (debug_print debug (lit ''[INFO] Fetching: '' @ url) w)
      \<lparr>console := console (debug_print debug (lit ''[INFO] Fetching: '' @ url) w) @ out\<rparr>"
  have w2: "state_files w2 = state_files w" "net_log w2 = net_log w"
    by (simp_all add: w2_def)
  define nf where "nf = env_bool W ''NOTIFY_ON_FIRST_RUN'' False"
  define ls where "ls = extract_listings L html url"
  have run: "run_once L W debug w
      = run_baseline L W debug url nf h (normalize_text L html) ls w2"
    unfolding run_once_baseline [OF assms(1-4)] by (simp add: w2_def nf_def ls_def assms(6))
  have ret: "snd (run_once L W debug w) = Inr 0"
    unfolding run using assms(5,11-13) by (rule run_baseline_returns)
  have m: "main L W debug w = (fst (run_once L W debug w), 0)"
    using ret by (cases "run_once L W debug w") (simp add: main_def)
  then have w1: "w1 = fst (run_baseline L W debug url nf h (normalize_text L html) ls w2)"
    by (simp add: assms(10) run)
  have files: "state_files w1
      = \<lparr>last_hash_txt = Content h, last_text_txt = Content (normalize_text L html),
         last_listings_txt = Content (concat (map (\<lambda>url. url @ [10]) (sorted_list_of_set ls)))\<rparr>"
    by (simp add: w1 run_baseline_files write_state_ok [OF assms(11-13)])
  obtain xs where xs: "net_log w1 = net_log w @ xs"
      "\<forall>x\<in>set xs. startswith (notification_text (fst x)) baseline_subject"
      "\<not> nf \<longrightarrow> xs = []"
    using run_baseline_log [of L W debug url nf h "normalize_text L html" ls w2]
    unfolding w1 w2 by blast
  have sent: "sent_since w w1 = xs" by (simp add: sent_since_def xs(1))
  have "finite ls" by (simp add: ls_def finite_extract_listings)
  then have r: "read_state (state_files w1)
      = Inr (\<lparr>last_hash = Some h, last_text = Some (universal_newlines (normalize_text L html)),
              last_listings = ls\<rparr>, [])"
    unfolding files using assms(7,8,9) by (intro read_written_state) (simp_all add: ls_def)
  have second: "run_once L W debug w1
      = (debug_print debug (lit ''[INFO] No change detected.'')
          ((debug_print debug (lit ''[INFO] Fetching: '' @ url) w1)
             \<lparr>console := console (debug_print debug (lit ''[INFO] Fetching: '' @ url) w1) @ []\<rparr>),
         Inr 0)"
    by (rule run_once_no_change [OF assms(1,2) r]) (simp_all add: ls_def assms(6))
  show ?thesis
    using m files sent xs(2,3)
    by (simp add: main_def second nf_def ls_def)
qed

lemma first_run_page_foo:
  "main sample_library (sample_outside False page_foo None) False world_first
     = (\<lparr>state_files = \<lparr>last_hash_txt = Content digest_foo, last_text_txt = Content text_foo,
                          last_listings_txt = Content (url_foo @ [10])\<rparr>,
          net_log = [], console = []\<rparr>, 0)"
  by (simp add: main_def run_once_def sample_url sample_get text_page_foo hash_text_foo
      listings_page_foo world_first_def read_state_def read_state_try_def path_exists_def
      run_baseline_def env_bool_def sample_environ_of sample_environ_def debug_print_def
      write_state_def write_file_def sample_writes Let_def)

lemma first_run_smtp_down:
  "main sample_library (sample_outside True page_a1 (Some smtp_down)) False world_first
     = (\<lparr>state_files = files_a1,
          net_log =
            [(TelegramPost \<lparr>api_url = lit ''https://api.telegram.org/botT0K/sendMessage'',
                chat_id = lit ''42'',
                message_text = baseline_subject @ [10] @ lit ''Time: ''
                  @ utc_now (sample_outside True page_a1 (Some smtp_down)) @ [10]
                  @ lit ''URL: '' @ DEFAULT_URL @ [10, 10]
                  @ lit ''Baseline content saved. Notifications will be sent on changes.''\<rparr>,
              None),
             (SmtpSend \<lparr>smtp_server = lit ''smtp.gmail.com'', smtp_port = 587,
                smtp_user = lit ''me@psoas.fi'', smtp_pass = lit ''pw'',
                email_from = lit ''me@psoas.fi'', email_to = lit ''litecointele@gmail.com'',
                mail_subject = baseline_subject,
                mail_body = lit ''Time: ''
                  @ utc_now (sample_outside True page_a1 (Some smtp_down)) @ [10]
                  @ lit ''URL: '' @ DEFAULT_URL @ [10, 10]
                  @ lit ''Baseline content saved. Notifications will be sent on changes.''\<rparr>,
              Some smtp_down),
             (TelegramPost \<lparr>api_url = lit ''https://api.telegram.org/botT0K/sendMessage'',
                chat_id = lit ''42'',
                message_text = lit ''PSOAS watcher error: '' @ exn_str smtp_down\<rparr>,
              None)],
          console = [Err (lit ''[ERROR] '' @ exn_str smtp_down)]\<rparr>, 1)"
  by (simp add: main_def run_once_def sample_url sample_get text_page_a1 hash_text_a1
      listings_page_a1 world_first_def read_state_def read_state_try_def path_exists_def
      run_baseline_def notify_def send_telegram_sample send_email_sample env_bool_def
      sample_environ_of sample_environ_def debug_print_def print_line_def write_state_def write_file_def sample_writes
      files_a1_def url_a1_def strip_def is_space_def lower_def Let_def)

text \<open>
  Claim C4 at two failing inputs. First, the page has one anchor whose \<open>href\<close> ends in a
  space and a slash; the listing kept is the URL with the trailing space. The first run,
  with no state, writes it to the listing file and sends nothing. \<open>read_state\<close> strips
  each line, so the second run on the same page reads the URL without the space, finds
  the listing new and sends the new-listings notification on both channels. Second,
  with the toggle for the first run set and an SMTP session that raises, the first run
  exits with 1.
\<close>

theorem second_run_reports_listing_again:
  "snd (main sample_library (sample_outside False page_foo None) False world_first) = 0
   \<and> net_log (fst (main sample_library (sample_outside False page_foo None) False world_first)) = []
   \<and> snd (main sample_library (sample_outside False page_foo None) False
            (fst (main sample_library (sample_outside False page_foo None) False world_first))) = 0
   \<and> map (\<lambda>x. (notification_text (fst x), snd x))
         (net_log (fst (main sample_library (sample_outside False page_foo None) False
            (fst (main sample_library (sample_outside False page_foo None) False world_first)))))
       = [(new_listings_message (sample_outside False page_foo None) DEFAULT_URL [url_foo], None),
          (new_listings_subject @ [10]
             @ new_listings_message (sample_outside False page_foo None) DEFAULT_URL [url_foo],
           None)]
   \<and> snd (main sample_library (sample_outside True page_a1 (Some smtp_down)) False world_first) = 1"
proof -
  define w1 where "w1 = \<lparr>state_files = \<lparr>last_hash_txt = Content digest_foo,
      last_text_txt = Content text_foo, last_listings_txt = Content (url_foo @ [10])\<rparr>,
      net_log = [], console = []\<rparr>"
  have r: "read_state (state_files w1)
     = Inr (\<lparr>last_hash = Some digest_foo, last_text = Some text_foo,
             last_listings = {lit ''https://www.psoas.fi/en/apartments/foo''}\<rparr>, [])"
    by (simp only: w1_def world.simps read_files_foo)
  have d: "url_foo \<noteq> lit ''https://www.psoas.fi/en/apartments/foo''"
    by (simp add: url_foo_def)
  have n: "extract_listings sample_library page_foo DEFAULT_URL
      - last_listings \<lparr>last_hash = Some digest_foo, last_text = Some text_foo,
             last_listings = {lit ''https://www.psoas.fi/en/apartments/foo''}\<rparr> \<noteq> {}"
    using d by (simp add: listings_page_foo)
  have "main sample_library (sample_outside False page_foo None) False w1
     = (w1\<lparr>state_files := state_files w1, net_log :=
          [(TelegramPost \<lparr>api_url = lit ''https://api.telegram.org/botT0K/sendMessage'',
              chat_id = lit ''42'',
              message_text = new_listings_message
                (sample_outside False page_foo None) DEFAULT_URL [url_foo]\<rparr>, None),
           (SmtpSend \<lparr>smtp_server = lit ''smtp.gmail.com'', smtp_port = 587,
              smtp_user = lit ''me@psoas.fi'', smtp_pass = lit ''pw'',
              email_from = lit ''me@psoas.fi'', email_to = lit ''litecointele@gmail.com'',
              mail_subject = new_listings_subject,
              mail_body = new_listings_message
                (sample_outside False page_foo None) DEFAULT_URL [url_foo]\<rparr>,
            None)]\<rparr>, 0)"
    unfolding main_def run_once_new_listings [where L = sample_library and debug = False
      and W = "sample_outside False page_foo None" and html = page_foo
      and prev_hash = digest_foo, OF sample_url [symmetric] sample_get r _ n, simplified]
    using d
    by (simp add: run_new_listings_def notify_def send_telegram_sample send_email_sample
        listings_page_foo text_page_foo hash_text_foo debug_print_def Let_def w1_def
        write_state_def write_file_def sample_writes)
  then show ?thesis
    by (simp add: first_run_page_foo first_run_smtp_down w1_def [symmetric]) (simp add: w1_def)
qed

end
